theory Spec2Isabelle
  imports Complex_Main
begin

section \<open>Token storage (frontend/src/services/auth.js, lines 8--53)\<close>

text \<open>
  \<^verbatim>\<open>localStorage\<close> is a map from keys to strings; \<^verbatim>\<open>getItem\<close> of a missing key is
  \<^verbatim>\<open>null\<close>, modelled as \<open>None\<close>.
\<close>

type_synonym localStorage = "string \<rightharpoonup> string"

definition ACCESS_TOKEN_KEY :: string where
  "ACCESS_TOKEN_KEY = ''financial_analysis_access_token''"

definition REFRESH_TOKEN_KEY :: string where
  "REFRESH_TOKEN_KEY = ''financial_analysis_refresh_token''"

text \<open>
  \<^verbatim>\<open>localStorage.setItem(k, v)\<close> stores \<^verbatim>\<open>String(v)\<close>: a value that is
  \<^verbatim>\<open>undefined\<close> (\<open>None\<close>) is stored as the text \<^verbatim>\<open>undefined\<close>.
\<close>

definition js_String :: "string option \<Rightarrow> string" where
  "js_String v = (case v of None \<Rightarrow> ''undefined'' | Some s \<Rightarrow> s)"

definition saveTokens :: "string option \<Rightarrow> string option \<Rightarrow> localStorage \<Rightarrow> localStorage" where
  "saveTokens accessToken refreshToken ls =
     (ls(ACCESS_TOKEN_KEY \<mapsto> js_String accessToken))(REFRESH_TOKEN_KEY \<mapsto> js_String refreshToken)"

definition getToken :: "localStorage \<Rightarrow> string option" where
  "getToken ls = ls ACCESS_TOKEN_KEY"

definition getRefreshToken :: "localStorage \<Rightarrow> string option" where
  "getRefreshToken ls = ls REFRESH_TOKEN_KEY"

definition clearTokens :: "localStorage \<Rightarrow> localStorage" where
  "clearTokens ls = (ls(ACCESS_TOKEN_KEY := None))(REFRESH_TOKEN_KEY := None)"

text \<open>JavaScript truthiness of a value that is a string or \<^verbatim>\<open>null\<close>: \<^verbatim>\<open>!!token\<close>.\<close>

definition truthy :: "string option \<Rightarrow> bool" where
  "truthy t = (case t of None \<Rightarrow> False | Some s \<Rightarrow> s \<noteq> [])"

definition isAuthenticated :: "localStorage \<Rightarrow> bool" where
  "isAuthenticated ls = truthy (getToken ls)"

section \<open>Token inspection (auth.js, lines 60--81)\<close>

text \<open>The values \<^verbatim>\<open>JSON.parse\<close> returns. Numbers are exact rationals.\<close>

datatype json =
    JNull
  | JBool bool
  | JNum rat
  | JStr string
  | JArr "json list"
  | JObj "(string \<times> json) list"

text \<open>
  What the browser provides and the repository does not define: the clock, \<^verbatim>\<open>atob\<close>
  and \<^verbatim>\<open>JSON.parse\<close> (\<open>None\<close> when they throw), and the numeric conversion
  \<^verbatim>\<open>ToNumber\<close> of strings, arrays and objects (\<open>None\<close> for \<^verbatim>\<open>NaN\<close>).
\<close>

record js_env =
  Date_now :: int
  atob :: "string \<Rightarrow> string option"
  JSON_parse :: "string \<Rightarrow> json option"
  ToNumber_other :: "json \<Rightarrow> rat option"

text \<open>\<^verbatim>\<open>token.split('.')\<close>: the pieces between the separators, at least one.\<close>

fun split :: "char \<Rightarrow> string \<Rightarrow> string list" where
  "split c [] = [[]]"
| "split c (x # xs) =
     (if x = c then [] # split c xs
      else (case split c xs of [] \<Rightarrow> [[x]] | y # ys \<Rightarrow> (x # y) # ys))"

text \<open>\<^verbatim>\<open>token.split('.')[1]\<close>: \<^verbatim>\<open>undefined\<close> when there is no second piece.\<close>

definition second_segment :: "string \<Rightarrow> string option" where
  "second_segment token =
     (case split (CHR ''.'') token of a # b # _ \<Rightarrow> Some b | _ \<Rightarrow> None)"

text \<open>
  The body of the \<^verbatim>\<open>try\<close> in \<^verbatim>\<open>parseJwt\<close>; \<open>None\<close> when \<^verbatim>\<open>atob\<close> or
  \<^verbatim>\<open>JSON.parse\<close> throws. \<^verbatim>\<open>atob(undefined)\<close> converts its argument to the
  text \<^verbatim>\<open>undefined\<close> first.
\<close>

definition decode_payload :: "js_env \<Rightarrow> string \<Rightarrow> json option" where
  "decode_payload env token =
     (case atob env (js_String (second_segment token)) of
        None \<Rightarrow> None
      | Some text \<Rightarrow> JSON_parse env text)"

definition parseJwt :: "js_env \<Rightarrow> string \<Rightarrow> json" where
  "parseJwt env token = (case decode_payload env token of None \<Rightarrow> JNull | Some payload \<Rightarrow> payload)"

text \<open>Truthiness of a parsed value: \<^verbatim>\<open>!payload\<close> is its negation.\<close>

fun truthy_json :: "json \<Rightarrow> bool" where
  "truthy_json JNull = False"
| "truthy_json (JBool b) = b"
| "truthy_json (JNum n) = (n \<noteq> 0)"
| "truthy_json (JStr s) = (s \<noteq> [])"
| "truthy_json (JArr _) = True"
| "truthy_json (JObj _) = True"

text \<open>\<^verbatim>\<open>payload.exp\<close>: \<open>None\<close> is \<^verbatim>\<open>undefined\<close>; only an object has own properties
  of that name.\<close>

fun get_exp :: "json \<Rightarrow> json option" where
  "get_exp (JObj props) = map_of props ''exp''"
| "get_exp _ = None"

text \<open>\<^verbatim>\<open>ToNumber\<close> of the left operand; \<open>None\<close> is \<^verbatim>\<open>NaN\<close>.\<close>

fun ToNumber :: "js_env \<Rightarrow> json option \<Rightarrow> rat option" where
  "ToNumber env None = None"
| "ToNumber env (Some JNull) = Some 0"
| "ToNumber env (Some (JBool b)) = Some (if b then 1 else 0)"
| "ToNumber env (Some (JNum n)) = Some n"
| "ToNumber env (Some v) = ToNumber_other env v"

text \<open>\<^verbatim>\<open>x < now\<close> for a number \<^verbatim>\<open>now\<close>: false when \<^verbatim>\<open>x\<close> converts to \<^verbatim>\<open>NaN\<close>.\<close>

definition js_less :: "js_env \<Rightarrow> json option \<Rightarrow> rat \<Rightarrow> bool" where
  "js_less env x now = (case ToNumber env x of None \<Rightarrow> False | Some n \<Rightarrow> n < now)"

definition now_seconds :: "js_env \<Rightarrow> rat" where
  "now_seconds env = of_int (Date_now env) / 1000"

text \<open>
  \<^verbatim>\<open>isTokenExpired(token)\<close>. \<^verbatim>\<open>!token\<close> holds for \<^verbatim>\<open>null\<close> and for the empty
  string; the function has one parameter and reads the clock itself.
\<close>

definition isTokenExpired :: "js_env \<Rightarrow> string option \<Rightarrow> bool" where
  "isTokenExpired env token =
     (case token of
        None \<Rightarrow> True
      | Some t \<Rightarrow>
          if t = [] then True
          else let payload = parseJwt env t in
            if \<not> truthy_json payload then True
            else js_less env (get_exp payload) (now_seconds env))"

section \<open>The request pipeline (auth.js, lines 167--251)\<close>

text \<open>
  A request configuration: its URL, \<^verbatim>\<open>headers.Authorization\<close> and the flag
  \<^verbatim>\<open>_retry\<close> (absent is \<open>False\<close>). The library keeps the flag when the configuration is
  sent again.
\<close>

record config =
  url :: string
  Authorization :: "string option"
  retry :: bool

text \<open>A failed request: \<^verbatim>\<open>error.config\<close> and \<^verbatim>\<open>error.response?.status\<close>
  (\<open>None\<close> when there was no response).\<close>

record axios_error =
  err_config :: config
  err_status :: "nat option"

datatype js_error = AxiosError axios_error | TypeError

datatype 'b result = Resolved 'b | Rejected js_error

text \<open>The body of a renewal response; a field the server did not send is \<^verbatim>\<open>undefined\<close>.\<close>

record token_response =
  access :: "string option"
  refresh :: "string option"

text \<open>
  The network calls the pipeline issues, and the server's answers. An answer is
  \<open>Inl status\<close> for a failure and \<open>Inr body\<close> for a success; it may depend on how many
  calls were issued before. A renewal answered with success whose \<^verbatim>\<open>response.data\<close> is \<^verbatim>\<open>null\<close> is \<open>Inr None\<close>.
\<close>

datatype call = ApiCall config | RefreshCall string

record 'b network =
  api_reply :: "nat \<Rightarrow> config \<Rightarrow> nat option + 'b"
  refresh_reply :: "nat \<Rightarrow> string \<Rightarrow> nat option + token_response option"

text \<open>
  The state the pipeline reads and writes: the storage, \<^verbatim>\<open>window.location.href\<close>,
  \<^verbatim>\<open>api.defaults.headers.common['Authorization']\<close> and the log of calls issued. Storage
  writes are taken to succeed. How the library merges the default header into later
  requests is not modelled; nothing below depends on it.
\<close>

record client =
  storage :: localStorage
  href :: string
  default_Authorization :: "string option"
  calls :: "call list"

definition baseURL :: string where
  "baseURL = ''http://localhost:8002/api''"

definition refresh_config :: "string \<Rightarrow> config" where
  "refresh_config refreshToken =
     \<lparr>url = baseURL @ ''/token/refresh/'', Authorization = None, retry = False\<rparr>"

text \<open>The request interceptor (lines 185--193).\<close>

definition request_interceptor :: "config \<Rightarrow> client \<Rightarrow> config" where
  "request_interceptor cfg s =
     (case getToken (storage s) of
        None \<Rightarrow> cfg
      | Some token \<Rightarrow>
          if token = [] then cfg else cfg\<lparr>Authorization := Some (''Bearer '' @ token)\<rparr>)"

text \<open>
  The response interceptor's error handler is an \<^verbatim>\<open>async\<close> function with one
  \<^verbatim>\<open>await\<close>. \<open>on_error\<close> is the part that runs before it (lines 210--229 and 249): it
  either settles the request or issues the renewal call and suspends.
\<close>

datatype 'b suspended = Done "'b result" | AwaitRefresh config string

definition on_error :: "js_env \<Rightarrow> axios_error \<Rightarrow> client \<Rightarrow> 'b suspended \<times> client" where
  "on_error env error s =
     (if err_status error = Some 401 \<and> \<not> retry (err_config error) then
        let originalRequest = (err_config error)\<lparr>retry := True\<rparr>;
            error' = error\<lparr>err_config := originalRequest\<rparr>;
            refreshToken = getRefreshToken (storage s)
        in (case refreshToken of
              None \<Rightarrow>
                (Done (Rejected (AxiosError error')),
                 s\<lparr>storage := clearTokens (storage s), href := ''/login''\<rparr>)
            | Some rt \<Rightarrow>
                if rt = [] \<or> isTokenExpired env refreshToken then
                  (Done (Rejected (AxiosError error')),
                   s\<lparr>storage := clearTokens (storage s), href := ''/login''\<rparr>)
                else (AwaitRefresh originalRequest rt, s\<lparr>calls := calls s @ [RefreshCall rt]\<rparr>))
      else (Done (Rejected (AxiosError error)), s))"

text \<open>
  \<open>on_refresh_reply\<close> is the part after the \<^verbatim>\<open>await\<close> (lines 231--246): on success
  it saves the tokens and sets the headers, and the request is sent again; on failure, and
  when destructuring a \<^verbatim>\<open>null\<close> \<^verbatim>\<open>response.data\<close> throws, the \<^verbatim>\<open>catch\<close> block runs.
\<close>

datatype 'b resumed = Finish "'b result" | Retry config

definition on_refresh_reply ::
  "config \<Rightarrow> string \<Rightarrow> nat option + token_response option \<Rightarrow> client \<Rightarrow> 'b resumed \<times> client" where
  "on_refresh_reply originalRequest refreshToken reply s =
     (case reply of
        Inl status \<Rightarrow>
          (Finish (Rejected (AxiosError \<lparr>err_config = refresh_config refreshToken, err_status = status\<rparr>)),
           s\<lparr>storage := clearTokens (storage s), href := ''/login?expired=true''\<rparr>)
      | Inr None \<Rightarrow>
          (Finish (Rejected TypeError),
           s\<lparr>storage := clearTokens (storage s), href := ''/login?expired=true''\<rparr>)
      | Inr (Some body) \<Rightarrow>
          (Retry (originalRequest\<lparr>Authorization := Some (''Bearer '' @ js_String (access body))\<rparr>),
           s\<lparr>storage := saveTokens (access body) (Some refreshToken) (storage s),
             default_Authorization := Some (''Bearer '' @ js_String (access body))\<rparr>))"

text \<open>
  \<^verbatim>\<open>api(config)\<close> for one request, run to its end: the request interceptor, the call, and
  on failure the error handler, which calls \<^verbatim>\<open>api(originalRequest)\<close> again after a
  successful renewal.
\<close>

function api :: "js_env \<Rightarrow> 'b network \<Rightarrow> config \<Rightarrow> client \<Rightarrow> 'b result \<times> client" where
  "api env net cfg s =
     (let sent = request_interceptor cfg s;
          s1 = s\<lparr>calls := calls s @ [ApiCall sent]\<rparr>
      in (case api_reply net (length (calls s)) sent of
            Inr body \<Rightarrow> (Resolved body, s1)
          | Inl status \<Rightarrow>
              (case on_error env \<lparr>err_config = sent, err_status = status\<rparr> s1 of
                 (Done res, s2) \<Rightarrow> (res, s2)
               | (AwaitRefresh originalRequest rt, s2) \<Rightarrow>
                   (case on_refresh_reply originalRequest rt
                           (refresh_reply net (length (calls s1)) rt) s2 of
                      (Finish res, s3) \<Rightarrow> (res, s3)
                    | (Retry again, s3) \<Rightarrow> api env net again s3))))"
  by pat_completeness auto
termination
proof (relation "measure (\<lambda>(env, net, cfg, s). if retry cfg then 0 else 1)")
  show "wf (measure (\<lambda>(env, net, cfg, s). if retry cfg then 0 else (1::nat)))"
    by simp
next
  fix env :: js_env and net :: "'b network" and cfg s sent s1 status x y originalRequest rt xa ya again
  assume sent: "sent = request_interceptor cfg s"
    and oe: "(x, y) = on_error env \<lparr>err_config = sent, err_status = status\<rparr> s1"
    and x: "x = AwaitRefresh originalRequest rt"
    and orr: "(xa, ya) = on_refresh_reply originalRequest rt (refresh_reply net (length (calls s1)) rt) y"
    and xa: "xa = Retry again"
  have r0: "retry sent = retry cfg"
    unfolding sent request_interceptor_def by (simp split: option.split)
  from oe x have "\<not> retry sent \<and> retry originalRequest"
    unfolding on_error_def Let_def by (auto split: if_splits option.splits)
  moreover from orr xa have "retry again = retry originalRequest"
    unfolding on_refresh_reply_def by (auto split: sum.splits option.splits)
  ultimately show "((env, net, again, ya), (env, net, cfg, s))
      \<in> measure (\<lambda>(env, net, cfg, s). if retry cfg then 0 else (1::nat))"
    using r0 by simp
qed

declare api.simps [simp del]

subsection \<open>Several requests at once\<close>

text \<open>
  JavaScript runs one handler at a time and switches only at an \<^verbatim>\<open>await\<close>. With several
  requests outstanding the browser delivers replies one by one; each delivery runs
  \<open>on_error\<close> or \<open>on_refresh_reply\<close> to its end. \<open>waiting\<close> holds the handlers suspended
  at their \<^verbatim>\<open>await\<close>, that is, the renewal calls in flight.
\<close>

definition issue :: "config \<Rightarrow> client \<Rightarrow> client" where
  "issue cfg s = s\<lparr>calls := calls s @ [ApiCall (request_interceptor cfg s)]\<rparr>"

datatype 'b event =
    ApiReplied config "nat option + 'b"
  | RefreshReplied nat "nat option + token_response option"

record 'b browser =
  cl :: client
  waiting :: "(config \<times> string) list"
  outcomes :: "'b result list"

fun deliver :: "js_env \<Rightarrow> 'b event \<Rightarrow> 'b browser \<Rightarrow> 'b browser" where
  "deliver env (ApiReplied sent (Inr body)) b = b\<lparr>outcomes := outcomes b @ [Resolved body]\<rparr>"
| "deliver env (ApiReplied sent (Inl status)) b =
     (case on_error env \<lparr>err_config = sent, err_status = status\<rparr> (cl b) of
        (Done res, s') \<Rightarrow> b\<lparr>cl := s', outcomes := outcomes b @ [res]\<rparr>
      | (AwaitRefresh originalRequest rt, s') \<Rightarrow>
          b\<lparr>cl := s', waiting := waiting b @ [(originalRequest, rt)]\<rparr>)"
| "deliver env (RefreshReplied k reply) b =
     (if k < length (waiting b) then
        (case waiting b ! k of (originalRequest, rt) \<Rightarrow>
           let rest = take k (waiting b) @ drop (Suc k) (waiting b) in
           (case on_refresh_reply originalRequest rt reply (cl b) of
              (Finish res, s') \<Rightarrow> b\<lparr>cl := s', waiting := rest, outcomes := outcomes b @ [res]\<rparr>
            | (Retry again, s') \<Rightarrow> b\<lparr>cl := issue again s', waiting := rest\<rparr>))
      else b)"

declare deliver.simps [simp del]

fun is_refresh_call :: "call \<Rightarrow> bool" where
  "is_refresh_call (RefreshCall _) = True"
| "is_refresh_call (ApiCall _) = False"

definition renewal_calls :: "client \<Rightarrow> nat" where
  "renewal_calls s = length (filter is_refresh_call (calls s))"

definition api_calls :: "client \<Rightarrow> nat" where
  "api_calls s = length (filter (\<lambda>c. \<not> is_refresh_call c) (calls s))"

section \<open>The inactivity timers (frontend/src/utils/sessionTimeout.js)\<close>

definition TIMEOUT_DURATION :: nat where
  "TIMEOUT_DURATION = 15 * 60 * 1000"

definition WARNING_DURATION :: nat where
  "WARNING_DURATION = 14 * 60 * 1000"

text \<open>
  The value passed as \<^verbatim>\<open>onTimeout\<close>: nothing, a function, or (when the module's own
  \<^verbatim>\<open>resetInactivityTimer\<close> is used as a listener) the DOM event.
\<close>

datatype 'cb handler = Undefined | Callback 'cb | EventObject

text \<open>
  The functions given to \<^verbatim>\<open>setTimeout\<close>: the two closures
  \<^verbatim>\<open>startInactivityTimer\<close> schedules, and the two of the warning dialog
  (components/auth/SessionTimeoutWarning.js): the one that opens the dialog, which carries
  \<^verbatim>\<open>warningThreshold\<close>, and the one that calls \<^verbatim>\<open>handleLogout\<close>.
\<close>

datatype 'cb timer_fn = Warn | Fire "'cb handler" | ShowDialog nat | DialogLogout

datatype dom_event = Mousemove | Keydown | Click

text \<open>
  A listener is a function object. Every evaluation of
  \<^verbatim>\<open>() => resetInactivityTimer(onTimeout)\<close> makes a new one (the number is its identity);
  \<open>ResetInactivityTimerRef\<close> is the exported function itself.
\<close>

datatype 'cb listener = ResetClosure nat "'cb handler" | ResetInactivityTimerRef

datatype 'cb effect = Warned | Called 'cb | Threw | DialogOpened | DialogLoggedOut

text \<open>
  The page: the clock in milliseconds, the browser's timer table (identifier, due time,
  function; identifiers count up from 1), the module's two variables, the document's
  listeners, and what the timers did, with the time.
\<close>

record 'cb page =
  clock :: nat
  next_timer :: nat
  timers :: "(nat \<times> nat \<times> 'cb timer_fn) list"
  inactivityTimer :: "nat option"
  warningTimer :: "nat option"
  next_closure :: nat
  listeners :: "(dom_event \<times> 'cb listener) list"
  trace :: "(nat \<times> 'cb effect) list"

definition fresh_page :: "nat \<Rightarrow> 'cb page" where
  "fresh_page t =
     \<lparr>clock = t, next_timer = 1, timers = [], inactivityTimer = None, warningTimer = None,
      next_closure = 0, listeners = [], trace = []\<rparr>"

definition setTimeout :: "'cb timer_fn \<Rightarrow> nat \<Rightarrow> 'cb page \<Rightarrow> nat \<times> 'cb page" where
  "setTimeout f delay p =
     (next_timer p,
      p\<lparr>next_timer := Suc (next_timer p),
        timers := timers p @ [(next_timer p, clock p + delay, f)]\<rparr>)"

definition clearTimeout :: "nat \<Rightarrow> 'cb page \<Rightarrow> 'cb page" where
  "clearTimeout i p = p\<lparr>timers := filter (\<lambda>(j, due, f). j \<noteq> i) (timers p)\<rparr>"

text \<open>\<^verbatim>\<open>if (timer) clearTimeout(timer)\<close>: \<^verbatim>\<open>undefined\<close> and 0 are falsy.\<close>

definition clear_if_set :: "nat option \<Rightarrow> 'cb page \<Rightarrow> 'cb page" where
  "clear_if_set v p = (case v of None \<Rightarrow> p | Some i \<Rightarrow> if i = 0 then p else clearTimeout i p)"

definition clearInactivityTimer :: "'cb page \<Rightarrow> 'cb page" where
  "clearInactivityTimer p =
     (let p1 = clear_if_set (inactivityTimer p) p in clear_if_set (warningTimer p1) p1)"

definition startInactivityTimer :: "'cb handler \<Rightarrow> 'cb page \<Rightarrow> 'cb page" where
  "startInactivityTimer onTimeout p =
     (let p0 = clearInactivityTimer p;
          (w, p1) = setTimeout Warn WARNING_DURATION p0;
          p2 = p1\<lparr>warningTimer := Some w\<rparr>;
          (i, p3) = setTimeout (Fire onTimeout) TIMEOUT_DURATION p2
      in p3\<lparr>inactivityTimer := Some i\<rparr>)"

definition resetInactivityTimer :: "'cb handler \<Rightarrow> 'cb page \<Rightarrow> 'cb page" where
  "resetInactivityTimer onTimeout p = startInactivityTimer onTimeout (clearInactivityTimer p)"

text \<open>\<^verbatim>\<open>addEventListener\<close> ignores a listener that is already registered for the event;
  \<^verbatim>\<open>removeEventListener\<close> removes the registration of that very function, if any.\<close>

definition addEventListener :: "dom_event \<Rightarrow> 'cb listener \<Rightarrow> 'cb page \<Rightarrow> 'cb page" where
  "addEventListener ev l p =
     (if (ev, l) \<in> set (listeners p) then p else p\<lparr>listeners := listeners p @ [(ev, l)]\<rparr>)"

definition removeEventListener :: "dom_event \<Rightarrow> 'cb listener \<Rightarrow> 'cb page \<Rightarrow> 'cb page" where
  "removeEventListener ev l p = p\<lparr>listeners := filter (\<lambda>x. x \<noteq> (ev, l)) (listeners p)\<rparr>"

definition new_closure :: "'cb handler \<Rightarrow> 'cb page \<Rightarrow> 'cb listener \<times> 'cb page" where
  "new_closure onTimeout p =
     (ResetClosure (next_closure p) onTimeout, p\<lparr>next_closure := Suc (next_closure p)\<rparr>)"

definition initializeInactivityTracking :: "'cb handler \<Rightarrow> 'cb page \<Rightarrow> 'cb page" where
  "initializeInactivityTracking onTimeout p =
     (let (l1, p1) = new_closure onTimeout p;
          p2 = addEventListener Mousemove l1 p1;
          (l2, p3) = new_closure onTimeout p2;
          p4 = addEventListener Keydown l2 p3;
          (l3, p5) = new_closure onTimeout p4;
          p6 = addEventListener Click l3 p5
      in startInactivityTimer onTimeout p6)"

definition removeInactivityTracking :: "'cb page \<Rightarrow> 'cb page" where
  "removeInactivityTracking p =
     clearInactivityTimer
       (removeEventListener Click ResetInactivityTimerRef
         (removeEventListener Keydown ResetInactivityTimerRef
           (removeEventListener Mousemove ResetInactivityTimerRef p)))"

text \<open>
  The effect of the warning dialog (SessionTimeoutWarning.js, lines 18--43). It runs when
  the component mounts and when \<^verbatim>\<open>isAuthenticated\<close> changes, and sets one timer; no
  listener and no function of sessionTimeout.js refers to it. The countdown interval, which
  only changes what the dialog displays, and the cleanup of lines 44--48, which runs when
  the component unmounts or \<^verbatim>\<open>isAuthenticated\<close> changes, are not modelled.
\<close>

definition SessionTimeoutWarning_effect :: "nat \<Rightarrow> nat \<Rightarrow> bool \<Rightarrow> 'cb page \<Rightarrow> 'cb page" where
  "SessionTimeoutWarning_effect warningThreshold logoutTime isAuth p =
     (if \<not> isAuth then p
      else snd (setTimeout (ShowDialog warningThreshold)
                  ((logoutTime - warningThreshold) * 1000) p))"

text \<open>
  The browser's side. A timer that comes due runs its function once: the warning closure
  logs a warning; the timeout closure calls \<^verbatim>\<open>onTimeout\<close> if it is truthy (calling a
  value that is not a function throws); the dialog's first closure opens the dialog and
  sets the timer for \<^verbatim>\<open>handleLogout\<close>, \<^verbatim>\<open>warningThreshold\<close> seconds later; the
  dialog's second closure calls \<^verbatim>\<open>handleLogout\<close>.
\<close>

fun fire :: "nat \<times> nat \<times> 'cb timer_fn \<Rightarrow> 'cb page \<Rightarrow> 'cb page" where
  "fire (i, due, Warn) p = p\<lparr>trace := trace p @ [(due, Warned)]\<rparr>"
| "fire (i, due, Fire Undefined) p = p"
| "fire (i, due, Fire (Callback c)) p = p\<lparr>trace := trace p @ [(due, Called c)]\<rparr>"
| "fire (i, due, Fire EventObject) p = p\<lparr>trace := trace p @ [(due, Threw)]\<rparr>"
| "fire (i, due, ShowDialog warningThreshold) p =
     snd (setTimeout DialogLogout (warningThreshold * 1000)
            (p\<lparr>trace := trace p @ [(due, DialogOpened)]\<rparr>))"
| "fire (i, due, DialogLogout) p = p\<lparr>trace := trace p @ [(due, DialogLoggedOut)]\<rparr>"

text \<open>
  The timer that runs next when time passes until \<open>t\<close>: the one with the earliest due
  time among those due by then (the older one first when two are due together).
\<close>

definition next_due :: "nat \<Rightarrow> (nat \<times> nat \<times> 'cb timer_fn) list \<Rightarrow> (nat \<times> nat \<times> 'cb timer_fn) option" where
  "next_due t ts =
     (case sort_key (\<lambda>(i, d, f). d) (filter (\<lambda>(i, d, f). d \<le> t) ts) of
        [] \<Rightarrow> None
      | x # rest \<Rightarrow> Some x)"

text \<open>How many timers a pending timer can still cause to run, itself included.\<close>

fun runs_left :: "nat \<times> nat \<times> 'cb timer_fn \<Rightarrow> nat" where
  "runs_left (i, due, ShowDialog warningThreshold) = 2"
| "runs_left (i, due, f) = 1"

text \<open>
  Time passes until \<open>t\<close>: the timers due by then run one after the other, each at its due
  time, also those that a timer running in between has set.
\<close>

function advance :: "nat \<Rightarrow> 'cb page \<Rightarrow> 'cb page" where
  "advance t p =
     (case next_due t (timers p) of
        None \<Rightarrow> p\<lparr>clock := max (clock p) t\<rparr>
      | Some x \<Rightarrow>
          advance t (fire x (p\<lparr>timers := remove1 x (timers p),
                               clock := max (clock p) (fst (snd x))\<rparr>)))"
  by pat_completeness auto
termination
proof (relation "measure (\<lambda>(t, p). sum_list (map runs_left (timers p)))")
  show "wf (measure (\<lambda>(t, p :: 'cb page). sum_list (map runs_left (timers p))))"
    by simp
next
  fix t :: nat and p :: "'cb page" and x
  assume n: "next_due t (timers p) = Some x"
  let ?due = "filter (\<lambda>(i, d, f). d \<le> t) (timers p)"
  from n obtain rest where "sort_key (\<lambda>(i, d, f). d) ?due = x # rest"
    by (auto simp: next_due_def split: list.splits)
  then have "x \<in> set (sort_key (\<lambda>(i, d, f). d) ?due)"
    by simp
  then have x: "x \<in> set (timers p)"
    by simp
  let ?p = "p\<lparr>timers := remove1 x (timers p), clock := max (clock p) (fst (snd x))\<rparr>"
  obtain i due f where xf: "x = (i, due, f)"
    by (cases x)
  have "sum_list (map runs_left (timers (fire x ?p))) + 1
      = runs_left x + sum_list (map runs_left (remove1 x (timers p)))"
  proof (cases f)
    case (Fire h)
    then show ?thesis
      unfolding xf by (cases h) simp_all
  qed (simp_all add: xf setTimeout_def)
  also have "\<dots> = sum_list (map runs_left (timers p))"
    by (rule sum_list_map_remove1 [OF x, symmetric])
  finally show "((t, fire x ?p), (t, p))
      \<in> measure (\<lambda>(t, p). sum_list (map runs_left (timers p)))"
    by simp
qed

declare advance.simps [simp del]

fun call_listener :: "'cb listener \<Rightarrow> 'cb page \<Rightarrow> 'cb page" where
  "call_listener (ResetClosure k onTimeout) p = resetInactivityTimer onTimeout p"
| "call_listener ResetInactivityTimerRef p = resetInactivityTimer EventObject p"

text \<open>A DOM event at time \<open>t\<close> runs the listeners registered for it, in order.\<close>

definition dispatch :: "dom_event \<Rightarrow> nat \<Rightarrow> 'cb page \<Rightarrow> 'cb page" where
  "dispatch ev t p =
     (let p' = advance t p
      in fold call_listener (map snd (filter (\<lambda>(e, l). e = ev) (listeners p'))) p')"

text \<open>A run of user activity: events with their times.\<close>

fun activity :: "(nat \<times> dom_event) list \<Rightarrow> 'cb page \<Rightarrow> 'cb page" where
  "activity [] p = p"
| "activity ((t, ev) # rest) p = activity rest (dispatch ev t p)"

section \<open>The session wrapper (frontend/src/components/AppWrapper.js)\<close>

text \<open>
  The component's state \<^verbatim>\<open>isAuthenticated\<close> and the router's location. The effect of
  lines 14--17 runs whenever the location changes and on mount.
\<close>

record wrapper =
  wrapper_isAuthenticated :: bool
  location :: string

definition location_effect :: "localStorage \<Rightarrow> wrapper \<Rightarrow> wrapper" where
  "location_effect ls w = w\<lparr>wrapper_isAuthenticated := truthy (getToken ls)\<rparr>"

definition navigate :: "string \<Rightarrow> localStorage \<Rightarrow> wrapper \<Rightarrow> wrapper" where
  "navigate path ls w = location_effect ls (w\<lparr>location := path\<rparr>)"

text \<open>
  The authentication context (\<^verbatim>\<open>AuthProvider\<close>, in contexts/ThemeContext.js, lines
  94--171): its state \<^verbatim>\<open>user\<close>, \<^verbatim>\<open>isAuthenticated\<close> and \<^verbatim>\<open>isLoading\<close>. The
  application's state is the storage, the wrapper and this context.
\<close>

record 'u provider =
  user :: "'u option"
  provider_isAuthenticated :: bool
  isLoading :: bool

record 'u app =
  app_storage :: localStorage
  app_wrapper :: wrapper
  app_provider :: "'u provider"

text \<open>
  \<^verbatim>\<open>login\<close> of the context, where both server calls succeed (lines 135--153): the
  tokens of the response are saved, then the profile and the flag are set.
\<close>

definition login :: "token_response \<Rightarrow> 'u \<Rightarrow> 'u app \<Rightarrow> 'u app" where
  "login body profile a =
     a\<lparr>app_storage := saveTokens (access body) (refresh body) (app_storage a),
       app_provider := (app_provider a)\<lparr>user := Some profile, provider_isAuthenticated := True\<rparr>\<rparr>"

text \<open>\<^verbatim>\<open>logout\<close> of the context (lines 167--171).\<close>

definition logout :: "'u app \<Rightarrow> 'u app" where
  "logout a =
     a\<lparr>app_storage := clearTokens (app_storage a),
       app_provider := (app_provider a)\<lparr>user := None, provider_isAuthenticated := False\<rparr>\<rparr>"

text \<open>The router changes the location; the wrapper's effect runs.\<close>

definition go_to :: "string \<Rightarrow> 'u app \<Rightarrow> 'u app" where
  "go_to path a = a\<lparr>app_wrapper := navigate path (app_storage a) (app_wrapper a)\<rparr>"

text \<open>
  \<^verbatim>\<open>handleTimeout\<close> (AppWrapper.js, lines 22--26), the function given to the timers:
  \<^verbatim>\<open>clearTokens()\<close>, then \<^verbatim>\<open>navigate\<close>. It does not call the context's
  \<^verbatim>\<open>logout\<close> and sets none of the context's state.
\<close>

definition handleTimeout :: "'u app \<Rightarrow> 'u app" where
  "handleTimeout a =
     go_to ''/login?session_expired=true'' (a\<lparr>app_storage := clearTokens (app_storage a)\<rparr>)"

text \<open>
  \<^verbatim>\<open>ProtectedRoute\<close> (App.js, lines 44--56) decides from the context's state alone what
  a protected address shows.
\<close>

datatype shown = Loading | RedirectToAuth | Children

definition ProtectedRoute :: "'u provider \<Rightarrow> shown" where
  "ProtectedRoute c =
     (if isLoading c then Loading
      else if \<not> provider_isAuthenticated c then RedirectToAuth
      else Children)"

text \<open>Assigning \<^verbatim>\<open>window.location.href\<close> loads the page anew: the component mounts
  with its initial state and the effect runs.\<close>

definition mount :: "client \<Rightarrow> wrapper" where
  "mount s = location_effect (storage s) \<lparr>wrapper_isAuthenticated = False, location = href s\<rparr>"

section \<open>Runs of activity that stay ahead of the warning\<close>

text \<open>
  \<open>in_time t0 acts\<close>: every event of the run comes before the warning deadline that
  the activity before it (at first: the start at \<open>t0\<close>) set, and time does not run
  backwards. \<open>last_activity\<close> is the time of the last event.
\<close>

fun in_time :: "nat \<Rightarrow> (nat \<times> dom_event) list \<Rightarrow> bool" where
  "in_time t0 [] = True"
| "in_time t0 ((t, ev) # rest) = (t0 \<le> t \<and> t < t0 + WARNING_DURATION \<and> in_time t rest)"

fun last_activity :: "nat \<Rightarrow> (nat \<times> dom_event) list \<Rightarrow> nat" where
  "last_activity t0 [] = t0"
| "last_activity t0 ((t, ev) # rest) = last_activity t rest"

text \<open>
  Invariants for the proofs. \<open>tracked\<close>: every pending timer is one of the two the module's
  variables name. \<open>armed h t0\<close>: the page after an activity at \<open>t0\<close> with the tracking
  started for \<open>h\<close>.
\<close>

definition tracked :: "'cb page \<Rightarrow> bool" where
  "tracked p \<longleftrightarrow>
     0 < next_timer p \<and>
     list_all (\<lambda>(i, due, f). i \<noteq> 0 \<and> (inactivityTimer p = Some i \<or> warningTimer p = Some i))
       (timers p)"

definition armed :: "'cb handler \<Rightarrow> nat \<Rightarrow> 'cb page \<Rightarrow> bool" where
  "armed h t0 p \<longleftrightarrow>
     tracked p \<and> clock p = t0 \<and>
     map snd (timers p) = [(t0 + WARNING_DURATION, Warn), (t0 + TIMEOUT_DURATION, Fire h)] \<and>
     list_all (\<lambda>(ev, l). \<exists>k. l = ResetClosure k h) (listeners p) \<and>
     (\<forall>ev. \<exists>k. (ev, ResetClosure k h) \<in> set (listeners p))"

section \<open>The specification's expiry test\<close>

text \<open>
  The specification's \<^verbatim>\<open>isExpired(token, skewSeconds)\<close>, after its words: true if the claims
  cannot be decoded, if the expiry is absent, or if the current time plus the skew has
  reached the expiry; false otherwise.
\<close>

definition isExpired_spec :: "js_env \<Rightarrow> string \<Rightarrow> rat \<Rightarrow> bool" where
  "isExpired_spec env token skewSeconds =
     (case decode_payload env token of
        None \<Rightarrow> True
      | Some payload \<Rightarrow>
          (case get_exp payload of
             Some (JNum expiresAt) \<Rightarrow> now_seconds env + skewSeconds \<ge> expiresAt
           | _ \<Rightarrow> True))"

section \<open>Sample data\<close>

text \<open>
  An environment for concrete runs: the clock stands at 1700000000 seconds, and
  \<^verbatim>\<open>atob\<close> and \<^verbatim>\<open>JSON.parse\<close> are tabulated on the payloads used below, where they
  agree with the browser's functions.
\<close>

definition sample_atob :: "string \<Rightarrow> string option" where
  \<open>sample_atob s =
     (if s = ''eyJleHAiOjE2MDAwMDAwMDB9'' then Some ''{"exp":1600000000}''
      else if s = ''eyJleHAiOjE3MDAwMDAwMDB9'' then Some ''{"exp":1700000000}''
      else if s = ''eyJleHAiOjE4MDAwMDAwMDB9'' then Some ''{"exp":1800000000}''
      else if s = ''NQ=='' then Some ''5''
      else None)\<close>

definition sample_JSON_parse :: "string \<Rightarrow> json option" where
  \<open>sample_JSON_parse s =
     (if s = ''{"exp":1600000000}'' then Some (JObj [(''exp'', JNum 1600000000)])
      else if s = ''{"exp":1700000000}'' then Some (JObj [(''exp'', JNum 1700000000)])
      else if s = ''{"exp":1800000000}'' then Some (JObj [(''exp'', JNum 1800000000)])
      else if s = ''5'' then Some (JNum 5)
      else None)\<close>

definition sample_env :: js_env where
  "sample_env =
     \<lparr>Date_now = 1700000000000, atob = sample_atob, JSON_parse = sample_JSON_parse,
      ToNumber_other = (\<lambda>v. None)\<rparr>"

text \<open>A token whose second segment is the base64 text of \<^verbatim>\<open>5\<close>: it decodes, to a
  number, and carries no claims.\<close>

definition token_number :: string where
  "token_number = ''h.NQ==.s''"

definition token_1600 :: string where
  "token_1600 = ''eyJhbGciOiJIUzI1NiJ9.eyJleHAiOjE2MDAwMDAwMDB9.sig''"

definition token_1700 :: string where
  "token_1700 = ''eyJhbGciOiJIUzI1NiJ9.eyJleHAiOjE3MDAwMDAwMDB9.sig''"

definition token_1800 :: string where
  "token_1800 = ''eyJhbGciOiJIUzI1NiJ9.eyJleHAiOjE4MDAwMDAwMDB9.sig''"

text \<open>
  A client whose stored access token has expired and whose refresh token is still valid,
  a request, and three servers: one that always answers 401 and renews, one that
  always answers 401 and whose renewal endpoint is unreachable, and one that answers 401
  once, renews with a new pair and then serves the request.
\<close>

definition sample_storage :: localStorage where
  "sample_storage = saveTokens (Some token_1600) (Some token_1800) Map.empty"

definition sample_client :: client where
  "sample_client =
     \<lparr>storage = sample_storage, href = ''/dashboard'', default_Authorization = None, calls = []\<rparr>"

definition sample_request :: config where
  "sample_request = \<lparr>url = ''/stocks/'', Authorization = None, retry = False\<rparr>"

definition new_pair :: token_response where
  "new_pair = \<lparr>access = Some ''new-access'', refresh = Some ''new-refresh''\<rparr>"

definition always_401 :: "string network" where
  "always_401 =
     \<lparr>api_reply = (\<lambda>n cfg. Inl (Some 401)), refresh_reply = (\<lambda>n rt. Inr (Some new_pair))\<rparr>"

definition renewal_down :: "string network" where
  "renewal_down =
     \<lparr>api_reply = (\<lambda>n cfg. Inl (Some 401)), refresh_reply = (\<lambda>n rt. Inl None)\<rparr>"

definition renewing :: "string network" where
  "renewing =
     \<lparr>api_reply = (\<lambda>n cfg. if n = 0 then Inl (Some 401) else Inr ''quotes''),
      refresh_reply = (\<lambda>n rt. Inr (Some new_pair))\<rparr>"

text \<open>
  Two requests outstanding at once, both sent with the expired access token, and the
  replies the browser then delivers: a 401 for each, then the answers to the renewal
  calls, which carry different access tokens.
\<close>

definition sample_request2 :: config where
  "sample_request2 = \<lparr>url = ''/news/'', Authorization = None, retry = False\<rparr>"

definition sample_browser :: "string browser" where
  "sample_browser =
     \<lparr>cl = issue sample_request2 (issue sample_request sample_client), waiting = [], outcomes = []\<rparr>"

definition two_unauthorized :: "string event list" where
  "two_unauthorized =
     [ApiReplied (request_interceptor sample_request sample_client) (Inl (Some 401)),
      ApiReplied (request_interceptor sample_request2 sample_client) (Inl (Some 401))]"

definition two_renewed :: "string event list" where
  "two_renewed =
     [RefreshReplied 0 (Inr (Some \<lparr>access = Some ''access-A'', refresh = None\<rparr>)),
      RefreshReplied 0 (Inr (Some \<lparr>access = Some ''access-B'', refresh = None\<rparr>))]"

text \<open>
  A page on which the tracking is started at time 0 and stopped one second later, after
  which the mouse moves once, at two seconds, and nothing else happens.
\<close>

definition started_page :: "string page" where
  "started_page = initializeInactivityTracking (Callback ''handleTimeout'') (fresh_page 0)"

definition stopped_page :: "string page" where
  "stopped_page = removeInactivityTracking (advance 1000 started_page)"

definition moved_page :: "string page" where
  "moved_page = dispatch Mousemove 2000 stopped_page"

text \<open>
  The page as the application sets it up when the user is authenticated at time 0: the
  dialog mounts with \<^verbatim>\<open>warningThreshold = 60\<close> and \<^verbatim>\<open>logoutTime = 900\<close>
  (AppWrapper.js, lines 54--59), and the wrapper's effect starts the tracking. Then the mouse
  moves once, at 800 s.
\<close>

definition mounted_page :: "string page" where
  "mounted_page =
     initializeInactivityTracking (Callback ''handleTimeout'')
       (SessionTimeoutWarning_effect 60 900 True (fresh_page 0))"

definition active_page :: "string page" where
  "active_page = activity [(800000, Mousemove)] mounted_page"

text \<open>
  The application after a login: nobody was logged in, the login succeeded, and the
  router went to the dashboard.
\<close>

definition initial_app :: "string app" where
  "initial_app =
     \<lparr>app_storage = Map.empty,
      app_wrapper = \<lparr>wrapper_isAuthenticated = False, location = ''/auth''\<rparr>,
      app_provider = \<lparr>user = None, provider_isAuthenticated = False, isLoading = False\<rparr>\<rparr>"

definition logged_in_app :: "string app" where
  "logged_in_app =
     go_to ''/dashboard''
       (login \<lparr>access = Some token_1800, refresh = Some token_1800\<rparr> ''profile'' initial_app)"

section \<open>Properties of the token store and the expiry test\<close>

lemma split_segments_token:
  "second_segment token_1600 = Some ''eyJleHAiOjE2MDAwMDAwMDB9''"
  "second_segment token_1700 = Some ''eyJleHAiOjE3MDAwMDAwMDB9''"
  "second_segment token_1800 = Some ''eyJleHAiOjE4MDAwMDAwMDB9''"
  by (simp_all add: second_segment_def token_1600_def token_1700_def token_1800_def)

lemma parseJwt_samples:
  "parseJwt sample_env token_1600 = JObj [(''exp'', JNum 1600000000)]"
  "parseJwt sample_env token_1700 = JObj [(''exp'', JNum 1700000000)]"
  "parseJwt sample_env token_1800 = JObj [(''exp'', JNum 1800000000)]"
  by (simp_all add: parseJwt_def decode_payload_def split_segments_token js_String_def
      sample_env_def sample_atob_def sample_JSON_parse_def)

lemma now_sample: "now_seconds sample_env = 1700000000"
  by (simp add: now_seconds_def sample_env_def)

lemma tokens_nonempty: "token_1600 \<noteq> []" "token_1700 \<noteq> []" "token_1800 \<noteq> []"
  by (simp_all add: token_1600_def token_1700_def token_1800_def)

lemma isTokenExpired_samples:
  "isTokenExpired sample_env (Some token_1600)"
  "\<not> isTokenExpired sample_env (Some token_1700)"
  "\<not> isTokenExpired sample_env (Some token_1800)"
  by (simp_all add: isTokenExpired_def tokens_nonempty parseJwt_samples js_less_def now_sample)

lemma getToken_clearTokens: "getToken (clearTokens ls) = None"
  by (simp add: getToken_def clearTokens_def ACCESS_TOKEN_KEY_def REFRESH_TOKEN_KEY_def)

lemma getRefreshToken_clearTokens: "getRefreshToken (clearTokens ls) = None"
  by (simp add: getRefreshToken_def clearTokens_def)

lemma getToken_saveTokens: "getToken (saveTokens a r ls) = Some (js_String a)"
  by (simp add: getToken_def saveTokens_def ACCESS_TOKEN_KEY_def REFRESH_TOKEN_KEY_def)

lemma getRefreshToken_saveTokens: "getRefreshToken (saveTokens a r ls) = Some (js_String r)"
  by (simp add: getRefreshToken_def saveTokens_def)

lemma isTokenExpired_falsy: "\<not> truthy token \<Longrightarrow> isTokenExpired env token"
  by (auto simp: isTokenExpired_def truthy_def split: option.splits)

lemma parseJwt_failure: "decode_payload env t = None \<Longrightarrow> parseJwt env t = JNull"
  by (simp add: parseJwt_def)

lemma isTokenExpired_falsy_payload:
  "\<not> truthy_json (parseJwt env t) \<Longrightarrow> isTokenExpired env (Some t)"
  by (simp add: isTokenExpired_def Let_def)

text \<open>
  C10, as stated, fails: a stored access token that is the empty string is present in
  storage, and \<^verbatim>\<open>isAuthenticated()\<close> returns false, because \<^verbatim>\<open>!!""\<close> is false.
\<close>

theorem isAuthenticated_empty_token_counterexample:
  "getToken (saveTokens (Some []) (Some token_1800) Map.empty) = Some []
   \<and> \<not> isAuthenticated (saveTokens (Some []) (Some token_1800) Map.empty)"
  by (simp add: isAuthenticated_def truthy_def getToken_saveTokens js_String_def)

text \<open>
  C10, amended: \<^verbatim>\<open>isAuthenticated()\<close> returns true exactly when a non-empty access token
  is in storage. It never inspects the token's expiry: it is true for every stored
  non-empty token, also one that \<^verbatim>\<open>isTokenExpired\<close> reports expired at the current time,
  and it is false when no token is stored.
\<close>

theorem isAuthenticated_iff_nonempty_token:
  "(isAuthenticated ls \<longleftrightarrow> (\<exists>t. getToken ls = Some t \<and> t \<noteq> []))
   \<and> (getToken ls = Some t \<and> t \<noteq> [] \<and> isTokenExpired env (Some t) \<longrightarrow> isAuthenticated ls)
   \<and> (getToken ls = None \<longrightarrow> \<not> isAuthenticated ls)"
  by (auto simp: isAuthenticated_def truthy_def split: option.splits)

theorem isAuthenticated_iff_nonempty_token_witness:
  "getToken (saveTokens (Some token_1600) (Some token_1800) Map.empty) = Some token_1600
   \<and> token_1600 \<noteq> []
   \<and> isTokenExpired sample_env (Some token_1600)
   \<and> isAuthenticated (saveTokens (Some token_1600) (Some token_1800) Map.empty)
   \<and> getToken (clearTokens Map.empty) = None
   \<and> \<not> isAuthenticated (clearTokens Map.empty)"
proof -
  let ?ls = "saveTokens (Some token_1600) (Some token_1800) Map.empty"
  have g: "getToken ?ls = Some token_1600"
    by (simp add: getToken_saveTokens js_String_def)
  have e: "isTokenExpired sample_env (Some token_1600)"
    by (rule isTokenExpired_samples)
  have n: "getToken (clearTokens Map.empty) = None"
    by (rule getToken_clearTokens)
  from isAuthenticated_iff_nonempty_token [of ?ls token_1600 sample_env] g e tokens_nonempty(1)
  have a: "isAuthenticated ?ls" by blast
  from isAuthenticated_iff_nonempty_token [of "clearTokens Map.empty" token_1600 sample_env] n
  have b: "\<not> isAuthenticated (clearTokens Map.empty)" by blast
  from g e a n b tokens_nonempty(1) show ?thesis by blast
qed

text \<open>
  C2, as stated, fails: at the instant the clock equals the expiry (and with the default
  skew of 0) the specification's test is true, and \<^verbatim>\<open>isTokenExpired\<close> returns false,
  because it compares \<^verbatim>\<open>payload.exp < now\<close>.
\<close>

theorem isTokenExpired_boundary_counterexample:
  "get_exp (parseJwt sample_env token_1700) = Some (JNum 1700000000)
   \<and> now_seconds sample_env = 1700000000
   \<and> isExpired_spec sample_env token_1700 0
   \<and> \<not> isTokenExpired sample_env (Some token_1700)"
proof -
  have "decode_payload sample_env token_1700 = Some (JObj [(''exp'', JNum 1700000000)])"
    by (simp add: decode_payload_def split_segments_token js_String_def
        sample_env_def sample_atob_def sample_JSON_parse_def)
  then have "isExpired_spec sample_env token_1700 0"
    by (simp add: isExpired_spec_def now_sample)
  then show ?thesis
    by (simp add: parseJwt_samples now_sample isTokenExpired_samples)
qed

text \<open>
  C2, amended: \<^verbatim>\<open>isTokenExpired(token)\<close> has no skew parameter. It returns true if the
  token is missing or empty, or if \<^verbatim>\<open>parseJwt\<close> yields \<^verbatim>\<open>null\<close> or another falsy
  payload; for a payload whose \<^verbatim>\<open>exp\<close> is a number it returns true exactly when
  \<^verbatim>\<open>exp\<close> is strictly less than the current time in seconds, so it returns false
  while the current time is at most \<^verbatim>\<open>exp\<close>.
\<close>

theorem isTokenExpired_strict_comparison:
  "(\<not> truthy token \<longrightarrow> isTokenExpired env token)
   \<and> (\<not> truthy_json (parseJwt env t) \<longrightarrow> isTokenExpired env (Some t))
   \<and> (t \<noteq> [] \<and> truthy_json (parseJwt env t) \<and> get_exp (parseJwt env t) = Some (JNum e)
        \<longrightarrow> isTokenExpired env (Some t) = (e < now_seconds env))"
  by (auto simp: isTokenExpired_def truthy_def Let_def js_less_def split: option.splits)

theorem isTokenExpired_strict_comparison_witness:
  "\<not> truthy None
   \<and> isTokenExpired sample_env None
   \<and> \<not> truthy_json (parseJwt sample_env ''no-dots'')
   \<and> isTokenExpired sample_env (Some ''no-dots'')
   \<and> token_1600 \<noteq> []
   \<and> truthy_json (parseJwt sample_env token_1600)
   \<and> get_exp (parseJwt sample_env token_1600) = Some (JNum 1600000000)
   \<and> isTokenExpired sample_env (Some token_1600) = ((1600000000::rat) < now_seconds sample_env)"
proof -
  have f: "\<not> truthy None"
    by (simp add: truthy_def)
  have p: "\<not> truthy_json (parseJwt sample_env ''no-dots'')"
    by (simp add: parseJwt_def decode_payload_def second_segment_def js_String_def
        sample_env_def sample_atob_def)
  have q: "truthy_json (parseJwt sample_env token_1600)"
    "get_exp (parseJwt sample_env token_1600) = Some (JNum 1600000000)"
    by (simp_all add: parseJwt_samples)
  from isTokenExpired_strict_comparison [of None sample_env "''no-dots''" 0] f p
  have a: "isTokenExpired sample_env None" "isTokenExpired sample_env (Some ''no-dots'')"
    by blast+
  from isTokenExpired_strict_comparison [of None sample_env token_1600 1600000000] q
    tokens_nonempty(1)
  have b: "isTokenExpired sample_env (Some token_1600) = ((1600000000::rat) < now_seconds sample_env)"
    by blast
  from f p q a b tokens_nonempty(1) show ?thesis by blast
qed

text \<open>
  A payload that decodes to a truthy value without an \<^verbatim>\<open>exp\<close> property is outside the
  cases above: \<^verbatim>\<open>undefined < now\<close> is false, and the token is reported as not expired.
\<close>

lemma isTokenExpired_absent_exp:
  "t \<noteq> [] \<Longrightarrow> truthy_json (parseJwt env t) \<Longrightarrow> get_exp (parseJwt env t) = None
   \<Longrightarrow> \<not> isTokenExpired env (Some t)"
  by (simp add: isTokenExpired_def Let_def js_less_def)

text \<open>
  Where decoding throws, the test fails closed. When \<^verbatim>\<open>atob\<close> or \<^verbatim>\<open>JSON.parse\<close>
  throws on the token's second segment (or there is none), \<^verbatim>\<open>parseJwt\<close> returns
  \<^verbatim>\<open>null\<close> and \<^verbatim>\<open>isTokenExpired\<close> returns true, at every time.
\<close>

lemma isTokenExpired_decode_throws:
  "decode_payload env t = None \<Longrightarrow> parseJwt env t = JNull \<and> isTokenExpired env (Some t)"
  by (simp add: parseJwt_failure isTokenExpired_falsy_payload)

lemma isTokenExpired_decode_throws_example:
  "decode_payload sample_env ''a.bm90IGpzb24=.c'' = None
   \<and> parseJwt sample_env ''a.bm90IGpzb24=.c'' = JNull
   \<and> isTokenExpired sample_env (Some ''a.bm90IGpzb24=.c'')"
proof -
  have d: "decode_payload sample_env ''a.bm90IGpzb24=.c'' = None"
    by (simp add: decode_payload_def second_segment_def js_String_def
        sample_env_def sample_atob_def)
  from isTokenExpired_decode_throws [OF d] d show ?thesis by blast
qed

text \<open>
  C6 says that every malformed token, one whose claims cannot be decoded, is reported
  expired and never taken as valid. The code does so only where decoding throws or yields
  a falsy value. The token \<^verbatim>\<open>h.NQ==.s\<close> is malformed: its second segment decodes to the
  number 5, which holds no claims. \<^verbatim>\<open>parseJwt\<close> returns 5, which is truthy,
  \<^verbatim>\<open>payload.exp\<close> is \<^verbatim>\<open>undefined\<close>, \<^verbatim>\<open>undefined < now\<close> is false, and
  \<^verbatim>\<open>isTokenExpired\<close> returns false: the token counts as not expired, at every time.
\<close>

theorem isTokenExpired_number_payload_not_expired:
  "second_segment token_number = Some ''NQ==''
   \<and> parseJwt sample_env token_number = JNum 5
   \<and> get_exp (parseJwt sample_env token_number) = None
   \<and> \<not> isTokenExpired sample_env (Some token_number)
   \<and> \<not> isTokenExpired (sample_env\<lparr>Date_now := 9999999999999\<rparr>) (Some token_number)"
  by (simp add: isTokenExpired_def Let_def js_less_def parseJwt_def decode_payload_def
      second_segment_def token_number_def js_String_def sample_env_def sample_atob_def
      sample_JSON_parse_def)

section \<open>Properties of the request pipeline\<close>

lemma request_interceptor_keeps:
  "retry (request_interceptor cfg s) = retry cfg" "url (request_interceptor cfg s) = url cfg"
  by (simp_all add: request_interceptor_def split: option.split)

lemma api_retried:
  "retry cfg \<Longrightarrow>
   api env net cfg s =
     (case api_reply net (length (calls s)) (request_interceptor cfg s) of
        Inr body \<Rightarrow> (Resolved body, s\<lparr>calls := calls s @ [ApiCall (request_interceptor cfg s)]\<rparr>)
      | Inl status \<Rightarrow>
          (Rejected (AxiosError \<lparr>err_config = request_interceptor cfg s, err_status = status\<rparr>),
           s\<lparr>calls := calls s @ [ApiCall (request_interceptor cfg s)]\<rparr>))"
  by (subst api.simps)
    (simp add: Let_def on_error_def request_interceptor_keeps split: sum.split)

lemma on_error_cases:
  "on_error env error s = (r, s') \<Longrightarrow>
     (\<exists>res. r = Done res \<and> calls s' = calls s)
     \<or> (\<exists>rt. r = AwaitRefresh ((err_config error)\<lparr>retry := True\<rparr>) rt
            \<and> s' = s\<lparr>calls := calls s @ [RefreshCall rt]\<rparr>
            \<and> err_status error = Some 401 \<and> \<not> retry (err_config error)
            \<and> getRefreshToken (storage s) = Some rt \<and> rt \<noteq> [] \<and> \<not> isTokenExpired env (Some rt))"
  by (auto simp: on_error_def Let_def split: if_splits option.splits)

lemma on_refresh_reply_cases:
  "on_refresh_reply orig rt reply s = (r, s') \<Longrightarrow>
     calls s' = calls s \<and>
     ((\<exists>res. r = Finish res \<and> storage s' = clearTokens (storage s))
      \<or> (\<exists>body. reply = Inr (Some body)
            \<and> r = Retry (orig\<lparr>Authorization := Some (''Bearer '' @ js_String (access body))\<rparr>)
            \<and> storage s' = saveTokens (access body) (Some rt) (storage s)))"
  by (auto simp: on_refresh_reply_def split: sum.splits option.splits)

lemma on_error_retry:
  "on_error env error s = (AwaitRefresh orig rt, s2) \<Longrightarrow> retry orig"
  by (auto simp: on_error_def Let_def split: if_splits option.splits)

lemma on_refresh_reply_retry:
  "on_refresh_reply orig rt reply s2 = (Retry again, s3) \<Longrightarrow> retry again = retry orig"
  by (auto simp: on_refresh_reply_def split: sum.splits option.splits)

lemma api_explicit:
  fixes net :: "'b network"
  shows "api env net cfg s =
    (let sent = request_interceptor cfg s;
         s1 = s\<lparr>calls := calls s @ [ApiCall sent]\<rparr>
     in (case api_reply net (length (calls s)) sent of
           Inr body \<Rightarrow> (Resolved body, s1)
         | Inl status \<Rightarrow>
             (case on_error env \<lparr>err_config = sent, err_status = status\<rparr> s1 of
                (Done res, s2) \<Rightarrow> (res, s2)
              | (AwaitRefresh originalRequest rt, s2) \<Rightarrow>
                  (case on_refresh_reply originalRequest rt
                          (refresh_reply net (length (calls s1)) rt) s2 of
                     (Finish res, s3) \<Rightarrow> (res, s3)
                   | (Retry again, s3) \<Rightarrow>
                       (let sent2 = request_interceptor again s3;
                            s4 = s3\<lparr>calls := calls s3 @ [ApiCall sent2]\<rparr>
                        in (case api_reply net (length (calls s3)) sent2 of
                              Inr body \<Rightarrow> (Resolved body, s4)
                            | Inl status2 \<Rightarrow>
                                (Rejected (AxiosError \<lparr>err_config = sent2, err_status = status2\<rparr>),
                                 s4)))))))"
proof -
  let ?sent = "request_interceptor cfg s"
  let ?s1 = "s\<lparr>calls := calls s @ [ApiCall ?sent]\<rparr>"
  show ?thesis
  proof (cases "api_reply net (length (calls s)) ?sent")
    case (Inr body)
    then show ?thesis by (subst api.simps) (simp add: Let_def)
  next
    case (Inl status)
    obtain r :: "'b suspended" and s2
      where oe: "on_error env \<lparr>err_config = ?sent, err_status = status\<rparr> ?s1 = (r, s2)"
      by fastforce
    show ?thesis
    proof (cases r)
      case (Done res)
      with Inl oe show ?thesis by (subst api.simps) (simp add: Let_def)
    next
      case (AwaitRefresh orig rt)
      obtain q :: "'b resumed" and s3
        where orr: "on_refresh_reply orig rt (refresh_reply net (length (calls ?s1)) rt) s2 = (q, s3)"
        by fastforce
      show ?thesis
      proof (cases q)
        case (Finish res)
        with Inl oe AwaitRefresh orr show ?thesis by (subst api.simps) (simp add: Let_def)
      next
        case (Retry again)
        from oe AwaitRefresh have "retry orig" by (auto dest: on_error_retry)
        with orr Retry have "retry again" by (auto dest: on_refresh_reply_retry)
        then have "api env net again s3 =
          (case api_reply net (length (calls s3)) (request_interceptor again s3) of
             Inr body \<Rightarrow> (Resolved body, s3\<lparr>calls := calls s3 @ [ApiCall (request_interceptor again s3)]\<rparr>)
           | Inl status \<Rightarrow>
               (Rejected (AxiosError \<lparr>err_config = request_interceptor again s3, err_status = status\<rparr>),
                s3\<lparr>calls := calls s3 @ [ApiCall (request_interceptor again s3)]\<rparr>))"
          by (rule api_retried)
        with Inl oe AwaitRefresh orr Retry show ?thesis
          by (subst api.simps) (simp add: Let_def)
      qed
    qed
  qed
qed


lemma api_calls_shape:
  fixes net :: "'b network"
  shows "\<exists>a. calls (snd (api env net cfg s)) = calls s @ [ApiCall a]
     \<or> (\<not> retry cfg \<and> (\<exists>rt. calls (snd (api env net cfg s)) = calls s @ [ApiCall a, RefreshCall rt]
        \<or> (\<exists>b. retry b \<and> calls (snd (api env net cfg s)) = calls s @ [ApiCall a, RefreshCall rt, ApiCall b])))"
proof -
  let ?sent = "request_interceptor cfg s"
  let ?s1 = "s\<lparr>calls := calls s @ [ApiCall ?sent]\<rparr>"
  show ?thesis
  proof (cases "api_reply net (length (calls s)) ?sent")
    case (Inr body)
    then show ?thesis by (simp add: api_explicit Let_def)
  next
    case (Inl status)
    obtain r :: "'b suspended" and s2
      where oe: "on_error env \<lparr>err_config = ?sent, err_status = status\<rparr> ?s1 = (r, s2)"
      by fastforce
    from on_error_cases [OF oe] show ?thesis
    proof
      assume "\<exists>res. r = Done res \<and> calls s2 = calls ?s1"
      with Inl oe show ?thesis by (auto simp: api_explicit Let_def)
    next
      assume "\<exists>rt. r = AwaitRefresh ((err_config \<lparr>err_config = ?sent, err_status = status\<rparr>)\<lparr>retry := True\<rparr>) rt
            \<and> s2 = ?s1\<lparr>calls := calls ?s1 @ [RefreshCall rt]\<rparr>
            \<and> err_status \<lparr>err_config = ?sent, err_status = status\<rparr> = Some 401
            \<and> \<not> retry (err_config \<lparr>err_config = ?sent, err_status = status\<rparr>)
            \<and> getRefreshToken (storage ?s1) = Some rt \<and> rt \<noteq> [] \<and> \<not> isTokenExpired env (Some rt)"
      then obtain rt where r: "r = AwaitRefresh (?sent\<lparr>retry := True\<rparr>) rt"
        and s2: "s2 = ?s1\<lparr>calls := calls ?s1 @ [RefreshCall rt]\<rparr>" and nr: "\<not> retry cfg"
        by (auto simp: request_interceptor_keeps)
      obtain q :: "'b resumed" and s3
        where orr: "on_refresh_reply (?sent\<lparr>retry := True\<rparr>) rt (refresh_reply net (length (calls ?s1)) rt) s2 = (q, s3)"
        by fastforce
      from on_refresh_reply_cases [OF orr] have c3: "calls s3 = calls s2" by simp
      show ?thesis
      proof (cases q)
        case (Finish res)
        with Inl oe r orr c3 s2 nr show ?thesis by (auto simp: api_explicit Let_def)
      next
        case (Retry again)
        with orr have "retry again" by (auto dest: on_refresh_reply_retry)
        then have "retry (request_interceptor again s3)" by (simp add: request_interceptor_keeps)
        with Inl oe r orr c3 s2 nr Retry show ?thesis
          by (auto simp: api_explicit Let_def split: sum.splits)
      qed
    qed
  qed
qed

text \<open>
  C3: one run of \<^verbatim>\<open>api(config)\<close> sends the request at most twice and issues at most one
  renewal call, whatever the server answers; a request already marked \<^verbatim>\<open>_retry\<close> (the
  retried request) is sent exactly once and starts no renewal, also when its answer is
  another 401. The recursion of \<open>api\<close> therefore ends after the retry.
\<close>

theorem api_retries_at_most_once:
  "api_calls (snd (api env net cfg s)) \<le> api_calls s + 2
   \<and> renewal_calls (snd (api env net cfg s)) \<le> renewal_calls s + 1
   \<and> (retry cfg \<longrightarrow> api_calls (snd (api env net cfg s)) = api_calls s + 1
                  \<and> renewal_calls (snd (api env net cfg s)) = renewal_calls s)"
  using api_calls_shape [of env net cfg s]
  by (auto simp: api_calls_def renewal_calls_def)


theorem api_retries_at_most_once_witness:
  "retry (sample_request\<lparr>retry := True\<rparr>)
   \<and> api_calls (snd (api sample_env always_401 (sample_request\<lparr>retry := True\<rparr>) sample_client)) = 1
   \<and> renewal_calls (snd (api sample_env always_401 (sample_request\<lparr>retry := True\<rparr>) sample_client)) = 0
   \<and> api_calls (snd (api sample_env always_401 sample_request sample_client)) \<le> 2
   \<and> renewal_calls (snd (api sample_env always_401 sample_request sample_client)) \<le> 1"
proof -
  have z: "api_calls sample_client = 0" "renewal_calls sample_client = 0"
    by (simp_all add: api_calls_def renewal_calls_def sample_client_def)
  have r: "retry (sample_request\<lparr>retry := True\<rparr>)"
    by simp
  from api_retries_at_most_once [of sample_env always_401 "sample_request\<lparr>retry := True\<rparr>" sample_client]
    api_retries_at_most_once [of sample_env always_401 sample_request sample_client] r z
  show ?thesis by simp
qed



lemma api_no_renewal:
  "api_reply net (length (calls s)) (request_interceptor cfg s) = Inl (Some 401) \<Longrightarrow>
   \<not> retry cfg \<Longrightarrow>
   \<not> truthy (getRefreshToken (storage s)) \<or> isTokenExpired env (getRefreshToken (storage s)) \<Longrightarrow>
   api env net cfg s =
     (Rejected (AxiosError \<lparr>err_config = (request_interceptor cfg s)\<lparr>retry := True\<rparr>,
                            err_status = Some 401\<rparr>),
      s\<lparr>calls := calls s @ [ApiCall (request_interceptor cfg s)],
        storage := clearTokens (storage s), href := ''/login''\<rparr>)"
  by (auto simp: api_explicit Let_def on_error_def request_interceptor_keeps truthy_def
      split: option.splits)

lemma api_renewal:
  assumes "api_reply net (length (calls s)) (request_interceptor cfg s) = Inl (Some 401)"
    and "\<not> retry cfg"
    and "getRefreshToken (storage s) = Some rt" and "rt \<noteq> []"
    and "\<not> isTokenExpired env (Some rt)"
  shows "api env net cfg s =
    (let sent = request_interceptor cfg s;
         issued = calls s @ [ApiCall sent, RefreshCall rt]
     in (case refresh_reply net (Suc (length (calls s))) rt of
           Inl status \<Rightarrow>
             (Rejected (AxiosError \<lparr>err_config = refresh_config rt, err_status = status\<rparr>),
              s\<lparr>calls := issued, storage := clearTokens (storage s),
                href := ''/login?expired=true''\<rparr>)
         | Inr None \<Rightarrow>
             (Rejected TypeError,
              s\<lparr>calls := issued, storage := clearTokens (storage s),
                href := ''/login?expired=true''\<rparr>)
         | Inr (Some body) \<Rightarrow>
             (let bearer = Some (''Bearer '' @ js_String (access body));
                  s3 = s\<lparr>calls := issued,
                         storage := saveTokens (access body) (Some rt) (storage s),
                         default_Authorization := bearer\<rparr>;
                  sent2 = request_interceptor (sent\<lparr>retry := True, Authorization := bearer\<rparr>) s3
              in (case api_reply net (Suc (Suc (length (calls s)))) sent2 of
                    Inr b \<Rightarrow> Resolved b
                  | Inl status2 \<Rightarrow>
                      Rejected (AxiosError \<lparr>err_config = sent2, err_status = status2\<rparr>),
                  s3\<lparr>calls := issued @ [ApiCall sent2]\<rparr>))))"
  using assms
  by (auto simp: api_explicit Let_def on_error_def on_refresh_reply_def request_interceptor_keeps
      split: sum.splits option.splits)


lemma sample_client_facts:
  "getRefreshToken (storage sample_client) = Some token_1800"
  "getToken (storage sample_client) = Some token_1600"
  "calls sample_client = []"
  "\<not> retry sample_request"
  by (simp_all add: sample_client_def sample_storage_def getRefreshToken_saveTokens
      getToken_saveTokens js_String_def sample_request_def)

text \<open>
  C4, as stated, fails: the server answers the renewal with a new access token and a new
  refresh token; the interceptor stores the new access token with the refresh token it
  read before the call, so the old refresh token stays in storage.
\<close>

theorem renewal_keeps_old_refresh_token_counterexample:
  "refresh_reply renewing 1 token_1800 = Inr (Some new_pair)
   \<and> fst (api sample_env renewing sample_request sample_client) = Resolved ''quotes''
   \<and> getToken (storage (snd (api sample_env renewing sample_request sample_client))) = access new_pair
   \<and> getRefreshToken (storage (snd (api sample_env renewing sample_request sample_client))) = Some token_1800
   \<and> getRefreshToken (storage (snd (api sample_env renewing sample_request sample_client))) \<noteq> refresh new_pair"
proof -
  have a: "api_reply renewing (length (calls sample_client))
      (request_interceptor sample_request sample_client) = Inl (Some 401)"
    by (simp add: renewing_def sample_client_facts)
  note run = api_renewal [OF a sample_client_facts(4) sample_client_facts(1)
      tokens_nonempty(3) isTokenExpired_samples(3)]
  show ?thesis
    unfolding run
    by (simp add: sample_client_facts Let_def renewing_def new_pair_def
        getToken_saveTokens getRefreshToken_saveTokens js_String_def token_1800_def)
qed

text \<open>
  C4, amended: on every successful renewal \<^verbatim>\<open>saveTokens\<close> writes both keys: the access
  token becomes the response's \<^verbatim>\<open>access\<close> field and the refresh token is written back
  as it was read before the renewal call; a refresh token in the response is ignored.
  The retried request leaves the storage as it is.
\<close>

theorem renewal_saves_access_keeps_refresh:
  assumes "api_reply net (length (calls s)) (request_interceptor cfg s) = Inl (Some 401)"
    and "\<not> retry cfg"
    and "getRefreshToken (storage s) = Some rt" and "rt \<noteq> []"
    and "\<not> isTokenExpired env (Some rt)"
    and "refresh_reply net (Suc (length (calls s))) rt = Inr (Some body)"
  shows "storage (snd (api env net cfg s)) = saveTokens (access body) (Some rt) (storage s)
    \<and> getToken (storage (snd (api env net cfg s))) = Some (js_String (access body))
    \<and> getRefreshToken (storage (snd (api env net cfg s))) = Some rt"
  by (simp add: api_renewal [OF assms(1-5)] assms(6) Let_def
      getToken_saveTokens getRefreshToken_saveTokens js_String_def)

theorem renewal_saves_access_keeps_refresh_witness:
  "api_reply renewing (length (calls sample_client))
      (request_interceptor sample_request sample_client) = Inl (Some 401)
   \<and> \<not> retry sample_request
   \<and> getRefreshToken (storage sample_client) = Some token_1800
   \<and> token_1800 \<noteq> []
   \<and> \<not> isTokenExpired sample_env (Some token_1800)
   \<and> refresh_reply renewing (Suc (length (calls sample_client))) token_1800 = Inr (Some new_pair)
   \<and> getToken (storage (snd (api sample_env renewing sample_request sample_client))) = Some ''new-access''
   \<and> getRefreshToken (storage (snd (api sample_env renewing sample_request sample_client))) = Some token_1800"
proof -
  have a: "api_reply renewing (length (calls sample_client))
      (request_interceptor sample_request sample_client) = Inl (Some 401)"
    by (simp add: renewing_def sample_client_facts)
  have b: "refresh_reply renewing (Suc (length (calls sample_client))) token_1800 = Inr (Some new_pair)"
    by (simp add: renewing_def)
  note t = renewal_saves_access_keeps_refresh [OF a sample_client_facts(4) sample_client_facts(1)
      tokens_nonempty(3) isTokenExpired_samples(3) b]
  have n: "js_String (access new_pair) = ''new-access''"
    by (simp add: new_pair_def js_String_def)
  from t have "getToken (storage (snd (api sample_env renewing sample_request sample_client))) = Some ''new-access''"
    "getRefreshToken (storage (snd (api sample_env renewing sample_request sample_client))) = Some token_1800"
    unfolding n by blast+
  with a b sample_client_facts(4) sample_client_facts(1) tokens_nonempty(3) isTokenExpired_samples(3)
  show ?thesis by blast
qed

section \<open>Forced logout and what the caller sees\<close>

lemma handleTimeout_cleared:
  "getToken (app_storage (handleTimeout a)) = None"
  "getRefreshToken (app_storage (handleTimeout a)) = None"
  "\<not> wrapper_isAuthenticated (app_wrapper (handleTimeout a))"
  by (simp_all add: handleTimeout_def go_to_def navigate_def location_effect_def
      getToken_clearTokens getRefreshToken_clearTokens truthy_def)

lemma handleTimeout_provider: "app_provider (handleTimeout a) = app_provider a"
  by (simp add: handleTimeout_def go_to_def)

lemma mount_cleared:
  "storage s = clearTokens ls \<Longrightarrow> \<not> wrapper_isAuthenticated (mount s)"
  by (simp add: mount_def location_effect_def getToken_clearTokens truthy_def)

lemma api_renewal_failed:
  fixes net :: "'b network"
  assumes "api_reply net (length (calls s)) (request_interceptor cfg s) = Inl (Some 401)"
    and "\<not> retry cfg"
    and "\<not> truthy (getRefreshToken (storage s))
         \<or> isTokenExpired env (getRefreshToken (storage s))
         \<or> (\<exists>rt. getRefreshToken (storage s) = Some rt
               \<and> (\<forall>body. refresh_reply net (Suc (length (calls s))) rt \<noteq> Inr (Some body)))"
  shows "storage (snd (api env net cfg s)) = clearTokens (storage s)"
proof (cases "\<not> truthy (getRefreshToken (storage s)) \<or> isTokenExpired env (getRefreshToken (storage s))")
  case True
  from api_no_renewal [OF assms(1,2) True] show ?thesis by simp
next
  case False
  with assms(3) obtain rt where rt: "getRefreshToken (storage s) = Some rt"
    and nb: "\<forall>body. refresh_reply net (Suc (length (calls s))) rt \<noteq> Inr (Some body)"
    by blast
  from False rt have v: "rt \<noteq> []" "\<not> isTokenExpired env (Some rt)"
    by (auto simp: truthy_def)
  from nb show ?thesis
    unfolding api_renewal [OF assms(1,2) rt v]
    by (auto simp: Let_def split: sum.splits option.splits)
qed

text \<open>
  The part of the forced logout that the storage and the wrapper see. After
  \<^verbatim>\<open>handleTimeout\<close> has run, and after a run of the pipeline in which the renewal could
  not be done (no refresh token, an expired one, a renewal call that failed, or one whose
  \<^verbatim>\<open>response.data\<close> was \<^verbatim>\<open>null\<close>), both tokens are gone from storage,
  \<^verbatim>\<open>getToken()\<close> returns \<^verbatim>\<open>null\<close>, \<^verbatim>\<open>isAuthenticated()\<close> is false, and the
  wrapper's \<^verbatim>\<open>isAuthenticated\<close> state is false (after the navigation, or when the page
  has loaded again at the login address).
\<close>

lemma forced_logout_clears_storage:
  fixes net :: "'b network"
  shows "getToken (app_storage (handleTimeout a)) = None
   \<and> getRefreshToken (app_storage (handleTimeout a)) = None
   \<and> \<not> isAuthenticated (app_storage (handleTimeout a))
   \<and> \<not> wrapper_isAuthenticated (app_wrapper (handleTimeout a))
   \<and> (api_reply net (length (calls s)) (request_interceptor cfg s) = Inl (Some 401)
        \<and> \<not> retry cfg
        \<and> (\<not> truthy (getRefreshToken (storage s))
            \<or> isTokenExpired env (getRefreshToken (storage s))
            \<or> (\<exists>rt. getRefreshToken (storage s) = Some rt
                  \<and> (\<forall>body. refresh_reply net (Suc (length (calls s))) rt \<noteq> Inr (Some body))))
      \<longrightarrow> getToken (storage (snd (api env net cfg s))) = None
          \<and> getRefreshToken (storage (snd (api env net cfg s))) = None
          \<and> \<not> isAuthenticated (storage (snd (api env net cfg s)))
          \<and> \<not> wrapper_isAuthenticated (mount (snd (api env net cfg s))))"
proof -
  have "\<not> isAuthenticated (app_storage (handleTimeout a))"
    by (simp add: isAuthenticated_def handleTimeout_cleared truthy_def)
  moreover
  { assume h: "api_reply net (length (calls s)) (request_interceptor cfg s) = Inl (Some 401)"
      "\<not> retry cfg"
      "\<not> truthy (getRefreshToken (storage s))
            \<or> isTokenExpired env (getRefreshToken (storage s))
            \<or> (\<exists>rt. getRefreshToken (storage s) = Some rt
                  \<and> (\<forall>body. refresh_reply net (Suc (length (calls s))) rt \<noteq> Inr (Some body)))"
    have c: "storage (snd (api env net cfg s)) = clearTokens (storage s)"
      by (rule api_renewal_failed [OF h])
    then have "getToken (storage (snd (api env net cfg s))) = None
          \<and> getRefreshToken (storage (snd (api env net cfg s))) = None
          \<and> \<not> isAuthenticated (storage (snd (api env net cfg s)))
          \<and> \<not> wrapper_isAuthenticated (mount (snd (api env net cfg s)))"
      using mount_cleared [OF c]
      by (simp add: getToken_clearTokens getRefreshToken_clearTokens isAuthenticated_def truthy_def)
  }
  ultimately show ?thesis
    using handleTimeout_cleared [of a] by blast
qed

lemma forced_logout_clears_storage_example:
  "api_reply renewal_down (length (calls sample_client))
      (request_interceptor sample_request sample_client) = Inl (Some 401)
   \<and> \<not> retry sample_request
   \<and> getRefreshToken (storage sample_client) = Some token_1800
   \<and> refresh_reply renewal_down (Suc (length (calls sample_client))) token_1800 = Inl None
   \<and> getToken (storage sample_client) = Some token_1600
   \<and> getToken (storage (snd (api sample_env renewal_down sample_request sample_client))) = None
   \<and> getRefreshToken (storage (snd (api sample_env renewal_down sample_request sample_client))) = None
   \<and> \<not> wrapper_isAuthenticated (mount (snd (api sample_env renewal_down sample_request sample_client)))"
proof -
  have a: "api_reply renewal_down (length (calls sample_client))
      (request_interceptor sample_request sample_client) = Inl (Some 401)"
    by (simp add: renewal_down_def)
  have b: "refresh_reply renewal_down (Suc (length (calls sample_client))) token_1800 = Inl None"
    by (simp add: renewal_down_def)
  then have c: "\<forall>body. refresh_reply renewal_down (Suc (length (calls sample_client))) token_1800
      \<noteq> Inr (Some body)"
    by simp
  from forced_logout_clears_storage [of logged_in_app renewal_down sample_client sample_request
      sample_env]
    a b c sample_client_facts
  show ?thesis by blast
qed

text \<open>
  C5 says that after the inactivity timeout has fired the token store is empty and the
  session state is logged out. The code empties the store, but the session state the
  routes read stays authenticated: \<^verbatim>\<open>handleTimeout\<close> calls \<^verbatim>\<open>clearTokens()\<close> and
  \<^verbatim>\<open>navigate\<close> and never the context's \<^verbatim>\<open>logout\<close>, so the context's
  \<^verbatim>\<open>isAuthenticated\<close> keeps the value the login gave it and \<^verbatim>\<open>ProtectedRoute\<close> goes on
  showing the protected pages. The context's own \<^verbatim>\<open>logout\<close>, from the same starting
  state, sets the flag to false.
\<close>

theorem handleTimeout_leaves_context_authenticated:
  "getToken (app_storage logged_in_app) = Some token_1800
   \<and> provider_isAuthenticated (app_provider logged_in_app)
   \<and> getToken (app_storage (handleTimeout logged_in_app)) = None
   \<and> getRefreshToken (app_storage (handleTimeout logged_in_app)) = None
   \<and> \<not> wrapper_isAuthenticated (app_wrapper (handleTimeout logged_in_app))
   \<and> provider_isAuthenticated (app_provider (handleTimeout logged_in_app))
   \<and> ProtectedRoute (app_provider (handleTimeout logged_in_app)) = Children
   \<and> \<not> provider_isAuthenticated (app_provider (logout logged_in_app))
   \<and> ProtectedRoute (app_provider (logout logged_in_app)) = RedirectToAuth"
  by (simp add: handleTimeout_cleared handleTimeout_provider logged_in_app_def go_to_def
      login_def initial_app_def logout_def ProtectedRoute_def getToken_saveTokens js_String_def)




section \<open>Renewal with several requests outstanding\<close>

lemma deliver_401:
  assumes "getRefreshToken (storage (cl b)) = Some rt" "rt \<noteq> []"
    "\<not> isTokenExpired env (Some rt)" "\<not> retry c"
  shows "deliver env (ApiReplied c (Inl (Some 401))) b =
     b\<lparr>cl := (cl b)\<lparr>calls := calls (cl b) @ [RefreshCall rt]\<rparr>,
       waiting := waiting b @ [(c\<lparr>retry := True\<rparr>, rt)]\<rparr>"
  using assms by (simp add: deliver.simps on_error_def Let_def)

text \<open>
  C1, amended: the pipeline has no shared renewal. Every 401 reply to a request not yet
  marked \<^verbatim>\<open>_retry\<close>, arriving while a valid refresh token is stored, issues its own
  renewal call and suspends: N such replies delivered before any renewal answer issue N
  renewal calls, and all N are in flight together.
\<close>

theorem each_unauthorized_reply_starts_a_renewal:
  assumes "getRefreshToken (storage (cl b)) = Some rt" and "rt \<noteq> []"
    and "\<not> isTokenExpired env (Some rt)" and "\<forall>c \<in> set cfgs. \<not> retry c"
  shows "renewal_calls (cl (fold (deliver env) (map (\<lambda>c. ApiReplied c (Inl (Some 401))) cfgs) b))
           = renewal_calls (cl b) + length cfgs
    \<and> length (waiting (fold (deliver env) (map (\<lambda>c. ApiReplied c (Inl (Some 401))) cfgs) b))
           = length (waiting b) + length cfgs"
  using assms
proof (induction cfgs arbitrary: b)
  case Nil
  then show ?case by simp
next
  case (Cons c cfgs)
  let ?b = "b\<lparr>cl := (cl b)\<lparr>calls := calls (cl b) @ [RefreshCall rt]\<rparr>,
       waiting := waiting b @ [(c\<lparr>retry := True\<rparr>, rt)]\<rparr>"
  from Cons.prems have nr: "\<not> retry c"
    by simp
  have d: "deliver env (ApiReplied c (Inl (Some 401))) b = ?b"
    by (rule deliver_401 [OF Cons.prems(1-3) nr])
  from Cons.prems have "getRefreshToken (storage (cl ?b)) = Some rt" "\<forall>c \<in> set cfgs. \<not> retry c"
    by simp_all
  from Cons.IH [OF this(1) Cons.prems(2,3) this(2)] show ?case
    by (simp add: d renewal_calls_def)
qed


lemma two_unauthorized_run:
  "fold (deliver sample_env) two_unauthorized sample_browser =
     \<lparr>cl = sample_client\<lparr>calls :=
         [ApiCall (request_interceptor sample_request sample_client),
          ApiCall (request_interceptor sample_request2 sample_client),
          RefreshCall token_1800, RefreshCall token_1800]\<rparr>,
      waiting = [((request_interceptor sample_request sample_client)\<lparr>retry := True\<rparr>, token_1800),
                 ((request_interceptor sample_request2 sample_client)\<lparr>retry := True\<rparr>, token_1800)],
      outcomes = []\<rparr>"
proof -
  have r: "\<not> retry (request_interceptor sample_request sample_client)"
    "\<not> retry (request_interceptor sample_request2 sample_client)"
    by (simp_all add: request_interceptor_keeps sample_request_def sample_request2_def)
  have i: "cl sample_browser = sample_client\<lparr>calls :=
         [ApiCall (request_interceptor sample_request sample_client),
          ApiCall (request_interceptor sample_request2 sample_client)]\<rparr>"
    by (simp add: sample_browser_def issue_def request_interceptor_def sample_client_def)
  have g: "getRefreshToken (storage (cl sample_browser)) = Some token_1800"
    by (simp add: i sample_client_facts)
  note d1 = deliver_401 [OF g tokens_nonempty(3) isTokenExpired_samples(3) r(1)]
  have g2: "getRefreshToken (storage (cl (deliver sample_env
      (ApiReplied (request_interceptor sample_request sample_client) (Inl (Some 401))) sample_browser)))
       = Some token_1800"
    unfolding d1 by (simp add: g)
  note d2 = deliver_401 [OF g2 tokens_nonempty(3) isTokenExpired_samples(3) r(2)]
  show ?thesis
    unfolding two_unauthorized_def fold_simps comp_def d2
    unfolding d1 i
    by (simp add: sample_browser_def)
qed

lemma two_renewed_run:
  "calls (cl (fold (deliver sample_env) (two_unauthorized @ two_renewed) sample_browser)) =
     [ApiCall (request_interceptor sample_request sample_client),
      ApiCall (request_interceptor sample_request2 sample_client),
      RefreshCall token_1800, RefreshCall token_1800,
      ApiCall \<lparr>url = ''/stocks/'', Authorization = Some ''Bearer access-A'', retry = True\<rparr>,
      ApiCall \<lparr>url = ''/news/'', Authorization = Some ''Bearer access-B'', retry = True\<rparr>]"
  unfolding fold_append comp_def two_unauthorized_run
  by (simp add: two_renewed_def deliver.simps on_refresh_reply_def issue_def Let_def
      request_interceptor_def getToken_saveTokens js_String_def sample_client_facts
      sample_request_def sample_request2_def tokens_nonempty)

text \<open>
  C1, as stated, fails: two requests sent with the expired token each receive a 401; each
  reply issues a renewal call, so two renewals are in flight at once; and when the two
  renewals return different access tokens, the two retried requests carry different
  tokens.
\<close>

theorem two_requests_two_renewals_counterexample:
  "renewal_calls (cl (fold (deliver sample_env) two_unauthorized sample_browser)) = 2
   \<and> length (waiting (fold (deliver sample_env) two_unauthorized sample_browser)) = 2
   \<and> drop 4 (calls (cl (fold (deliver sample_env) (two_unauthorized @ two_renewed) sample_browser)))
       = [ApiCall \<lparr>url = ''/stocks/'', Authorization = Some ''Bearer access-A'', retry = True\<rparr>,
          ApiCall \<lparr>url = ''/news/'', Authorization = Some ''Bearer access-B'', retry = True\<rparr>]"
  unfolding two_renewed_run
  by (simp add: two_unauthorized_run renewal_calls_def)

theorem each_unauthorized_reply_starts_a_renewal_witness:
  "getRefreshToken (storage (cl sample_browser)) = Some token_1800
   \<and> token_1800 \<noteq> []
   \<and> \<not> isTokenExpired sample_env (Some token_1800)
   \<and> \<not> retry (request_interceptor sample_request sample_client)
   \<and> \<not> retry (request_interceptor sample_request2 sample_client)
   \<and> renewal_calls (cl sample_browser) = 0
   \<and> renewal_calls (cl (fold (deliver sample_env)
        (map (\<lambda>c. ApiReplied c (Inl (Some 401))) [request_interceptor sample_request sample_client,
           request_interceptor sample_request2 sample_client]) sample_browser)) = 2
   \<and> length (waiting (fold (deliver sample_env)
        (map (\<lambda>c. ApiReplied c (Inl (Some 401))) [request_interceptor sample_request sample_client,
           request_interceptor sample_request2 sample_client]) sample_browser)) = 2"
proof -
  have g: "getRefreshToken (storage (cl sample_browser)) = Some token_1800"
    by (simp add: sample_browser_def issue_def sample_client_facts)
  have r: "\<forall>c \<in> set [request_interceptor sample_request sample_client,
           request_interceptor sample_request2 sample_client]. \<not> retry c"
    by (simp add: request_interceptor_keeps sample_request_def sample_request2_def)
  have z: "renewal_calls (cl sample_browser) = 0" "length (waiting sample_browser) = 0"
    by (simp_all add: sample_browser_def issue_def renewal_calls_def sample_client_def)
  from each_unauthorized_reply_starts_a_renewal
      [OF g tokens_nonempty(3) isTokenExpired_samples(3) r] z
  have "renewal_calls (cl (fold (deliver sample_env)
        (map (\<lambda>c. ApiReplied c (Inl (Some 401))) [request_interceptor sample_request sample_client,
           request_interceptor sample_request2 sample_client]) sample_browser)) = 2"
   "length (waiting (fold (deliver sample_env)
        (map (\<lambda>c. ApiReplied c (Inl (Some 401))) [request_interceptor sample_request sample_client,
           request_interceptor sample_request2 sample_client]) sample_browser)) = 2"
    by simp_all
  with g r z tokens_nonempty(3) isTokenExpired_samples(3) show ?thesis
    by simp
qed

section \<open>Properties of the inactivity timers\<close>

lemma clear_if_set_fields:
  "clear_if_set v p = p\<lparr>timers := timers (clear_if_set v p)\<rparr>"
  by (simp add: clear_if_set_def clearTimeout_def split: option.splits)

lemma set_timers_clear_if_set:
  "set (timers (clear_if_set v p)) = {x \<in> set (timers p). \<not> (fst x \<noteq> 0 \<and> v = Some (fst x))}"
  by (auto simp: clear_if_set_def clearTimeout_def split: option.splits)

lemma clear_if_set_keeps:
  "inactivityTimer (clear_if_set v p) = inactivityTimer p"
  "warningTimer (clear_if_set v p) = warningTimer p"
  by (simp_all add: clear_if_set_def clearTimeout_def split: option.splits)

lemma clearInactivityTimer_fields:
  "clearInactivityTimer p = p\<lparr>timers := timers (clearInactivityTimer p)\<rparr>"
proof -
  let ?p1 = "clear_if_set (inactivityTimer p) p"
  have "clear_if_set (warningTimer ?p1) ?p1 = ?p1\<lparr>timers := timers (clear_if_set (warningTimer ?p1) ?p1)\<rparr>"
    by (rule clear_if_set_fields)
  also have "\<dots> = p\<lparr>timers := timers (clear_if_set (warningTimer ?p1) ?p1)\<rparr>"
    by (subst clear_if_set_fields [of "inactivityTimer p" p]) simp
  finally show ?thesis
    by (simp add: clearInactivityTimer_def Let_def)
qed

lemma clearInactivityTimer_tracked:
  assumes "tracked p"
  shows "clearInactivityTimer p = p\<lparr>timers := []\<rparr>"
proof -
  from assms have "\<forall>x \<in> set (timers p).
      fst x \<noteq> 0 \<and> (inactivityTimer p = Some (fst x) \<or> warningTimer p = Some (fst x))"
    by (auto simp: tracked_def list_all_iff)
  then have "set (timers (clearInactivityTimer p)) = {}"
    by (auto simp: clearInactivityTimer_def Let_def set_timers_clear_if_set clear_if_set_keeps)
  then have "timers (clearInactivityTimer p) = []"
    by simp
  with clearInactivityTimer_fields [of p] show ?thesis
    by simp
qed

lemma startInactivityTimer_cleared:
  assumes "timers p = []"
  shows "startInactivityTimer h p =
     p\<lparr>next_timer := Suc (Suc (next_timer p)),
       timers := [(next_timer p, clock p + WARNING_DURATION, Warn),
                  (Suc (next_timer p), clock p + TIMEOUT_DURATION, Fire h)],
       warningTimer := Some (next_timer p),
       inactivityTimer := Some (Suc (next_timer p))\<rparr>"
  using assms
  by (simp add: startInactivityTimer_def clearInactivityTimer_def Let_def clear_if_set_def
      clearTimeout_def setTimeout_def split: option.splits)

lemma resetInactivityTimer_tracked:
  assumes "tracked p"
  shows "resetInactivityTimer h p =
     p\<lparr>next_timer := Suc (Suc (next_timer p)),
       timers := [(next_timer p, clock p + WARNING_DURATION, Warn),
                  (Suc (next_timer p), clock p + TIMEOUT_DURATION, Fire h)],
       warningTimer := Some (next_timer p),
       inactivityTimer := Some (Suc (next_timer p))\<rparr>"
  by (simp add: resetInactivityTimer_def clearInactivityTimer_tracked [OF assms]
      startInactivityTimer_cleared)


lemma durations: "WARNING_DURATION = 840000" "TIMEOUT_DURATION = 900000"
  by (simp_all add: WARNING_DURATION_def TIMEOUT_DURATION_def)

lemma tracked_reset:
  assumes "tracked p"
  shows "tracked (resetInactivityTimer h p)"
  using assms
  by (simp add: resetInactivityTimer_tracked [OF assms] tracked_def)

lemma armed_reset:
  assumes "tracked p"
    and "list_all (\<lambda>(ev, l). \<exists>k. l = ResetClosure k h) (listeners p)"
    and "\<forall>ev. \<exists>k. (ev, ResetClosure k h) \<in> set (listeners p)"
  shows "armed h (clock p) (resetInactivityTimer h p)"
  using assms
  by (simp add: resetInactivityTimer_tracked [OF assms(1)] armed_def tracked_def)

lemma resetInactivityTimer_trace:
  "tracked p \<Longrightarrow> trace (resetInactivityTimer h p) = trace p"
  by (simp add: resetInactivityTimer_tracked)

lemma advance_nothing_due:
  assumes "\<forall>x \<in> set (timers p). t < fst (snd x)" and "clock p \<le> t"
  shows "advance t p = p\<lparr>clock := t\<rparr>"
proof -
  from assms(1) have "filter (\<lambda>(i, d, f). d \<le> t) (timers p) = []"
    by (auto simp: filter_empty_conv)
  then have "next_due t (timers p) = None"
    by (simp add: next_due_def)
  then show ?thesis
    using assms(2) by (subst advance.simps) (simp add: max_def)
qed

lemma armed_timers_due:
  assumes "armed h t0 p" and "x \<in> set (timers p)"
  shows "t0 + WARNING_DURATION \<le> fst (snd x)"
proof -
  from assms(2) have "snd x \<in> set (map snd (timers p))"
    by auto
  with assms(1) show ?thesis
    by (auto simp: armed_def durations)
qed

lemma armed_again:
  assumes "armed h t p"
  shows "armed h t (resetInactivityTimer h p)" and "trace (resetInactivityTimer h p) = trace p"
proof -
  from assms have t: "tracked p" and c: "clock p = t"
    and l: "list_all (\<lambda>(ev, l). \<exists>k. l = ResetClosure k h) (listeners p)"
      "\<forall>ev. \<exists>k. (ev, ResetClosure k h) \<in> set (listeners p)"
    by (simp_all add: armed_def)
  from armed_reset [OF t l] c show "armed h t (resetInactivityTimer h p)"
    by simp
  from t show "trace (resetInactivityTimer h p) = trace p"
    by (rule resetInactivityTimer_trace)
qed

lemma fold_call_listener_armed:
  assumes "armed h t p" and "list_all (\<lambda>l. \<exists>k. l = ResetClosure k h) ls"
  shows "armed h t (fold call_listener ls p) \<and> trace (fold call_listener ls p) = trace p"
  using assms
proof (induction ls arbitrary: p)
  case Nil
  then show ?case by simp
next
  case (Cons l ls)
  from Cons.prems obtain k where l: "l = ResetClosure k h" and rest: "list_all (\<lambda>l. \<exists>k. l = ResetClosure k h) ls"
    by auto
  from armed_again [OF Cons.prems(1)] Cons.IH [OF _ rest, of "resetInactivityTimer h p"] l
  show ?case by simp
qed

lemma dispatch_armed:
  assumes "armed h t0 p" and "t0 \<le> t" and "t < t0 + WARNING_DURATION"
  shows "armed h t (dispatch ev t p) \<and> trace (dispatch ev t p) = trace p"
proof -
  from assms(1) have tr: "tracked p" and c: "clock p = t0"
    and l: "list_all (\<lambda>(ev, l). \<exists>k. l = ResetClosure k h) (listeners p)"
      "\<forall>ev. \<exists>k. (ev, ResetClosure k h) \<in> set (listeners p)"
    by (simp_all add: armed_def)
  have "\<forall>x \<in> set (timers p). t < fst (snd x)"
    using armed_timers_due [OF assms(1)] assms(3) by fastforce
  with assms(2) c have a: "advance t p = p\<lparr>clock := t\<rparr>"
    by (simp add: advance_nothing_due)
  let ?ls = "map snd (filter (\<lambda>(e, l). e = ev) (listeners p))"
  from l(2) obtain k where "(ev, ResetClosure k h) \<in> set (listeners p)"
    by blast
  then have "ResetClosure k h \<in> set ?ls"
    by force
  then obtain l' ls' where ls: "?ls = l' # ls'"
    by (cases ?ls) auto
  from l(1) have all: "list_all (\<lambda>l. \<exists>k. l = ResetClosure k h) ?ls"
    by (auto simp: list_all_iff)
  with ls obtain k' where l': "l' = ResetClosure k' h"
    and rest: "list_all (\<lambda>l. \<exists>k. l = ResetClosure k h) ls'"
    by auto
  from tr have tr': "tracked (p\<lparr>clock := t\<rparr>)"
    by (simp add: tracked_def)
  from armed_reset [OF tr'] l
  have ar: "armed h t (resetInactivityTimer h (p\<lparr>clock := t\<rparr>))"
    by simp
  have "dispatch ev t p = fold call_listener ls' (resetInactivityTimer h (p\<lparr>clock := t\<rparr>))"
    by (simp add: dispatch_def Let_def a ls l')
  with fold_call_listener_armed [OF ar rest] resetInactivityTimer_trace [OF tr', of h]
  show ?thesis by simp
qed

lemma armed_initialize:
  "armed h t0 (initializeInactivityTracking h (fresh_page t0))"
proof -
  let ?p = "(fresh_page t0 :: 'a page)\<lparr>next_closure := 3,
      listeners := [(Mousemove, ResetClosure 0 h), (Keydown, ResetClosure (Suc 0) h),
                    (Click, ResetClosure 2 h)]\<rparr>"
  have i: "initializeInactivityTracking h (fresh_page t0) = startInactivityTimer h ?p"
    by (simp add: initializeInactivityTracking_def new_closure_def addEventListener_def
        fresh_page_def Let_def numeral_3_eq_3 eval_nat_numeral)
  have t: "timers ?p = []"
    by (simp add: fresh_page_def)
  have "\<And>ev. \<exists>k. ev = Mousemove \<and> k = 0 \<or> ev = Keydown \<and> k = Suc 0 \<or> ev = Click \<and> k = 2"
    by (metis dom_event.exhaust)
  then show ?thesis
    unfolding i startInactivityTimer_cleared [OF t]
    by (simp add: armed_def tracked_def fresh_page_def)
qed

lemma activity_armed:
  assumes "armed h t0 p" and "in_time t0 acts"
  shows "armed h (last_activity t0 acts) (activity acts p) \<and> trace (activity acts p) = trace p"
  using assms
proof (induction acts arbitrary: t0 p)
  case Nil
  then show ?case by simp
next
  case (Cons a acts)
  obtain t ev where a: "a = (t, ev)"
    by (cases a)
  from Cons.prems a have "t0 \<le> t" "t < t0 + WARNING_DURATION" "in_time t acts"
    by simp_all
  from dispatch_armed [OF Cons.prems(1) this(1,2)] Cons.IH [OF _ this(3), of "dispatch ev t p"] a
  show ?case by simp
qed

text \<open>
  The timers of sessionTimeout.js, taken alone, coalesce. The tracking is started at
  \<open>t0\<close> on a page with no other timer, and every activity event comes before the warning
  deadline set by the activity before it. Then no timer function has run at the end of the
  run, and exactly two timers are pending: the warning at the last activity plus
  \<^verbatim>\<open>WARNING_DURATION\<close> and the timeout at the last activity plus
  \<^verbatim>\<open>TIMEOUT_DURATION\<close>. The timers set by earlier resets are gone.
\<close>

lemma module_timers_coalesce:
  assumes "in_time t0 acts"
  shows "trace (activity acts (initializeInactivityTracking h (fresh_page t0))) = []
    \<and> map snd (timers (activity acts (initializeInactivityTracking h (fresh_page t0))))
        = [(last_activity t0 acts + WARNING_DURATION, Warn),
           (last_activity t0 acts + TIMEOUT_DURATION, Fire h)]"
proof -
  have "trace (initializeInactivityTracking h (fresh_page t0)) = []"
    by (simp add: initializeInactivityTracking_def new_closure_def addEventListener_def
        fresh_page_def Let_def startInactivityTimer_def clearInactivityTimer_def
        clear_if_set_def setTimeout_def)
  with activity_armed [OF armed_initialize assms, of h] show ?thesis
    by (simp add: armed_def)
qed


lemma module_timers_coalesce_example:
  "in_time 0 [(100000, Mousemove), (900000, Keydown), (1700000, Click)]
   \<and> trace (activity [(100000, Mousemove), (900000, Keydown), (1700000, Click)]
        (initializeInactivityTracking (Callback ''handleTimeout'') (fresh_page 0))) = []
   \<and> map snd (timers (activity [(100000, Mousemove), (900000, Keydown), (1700000, Click)]
        (initializeInactivityTracking (Callback ''handleTimeout'') (fresh_page 0))))
        = [(2540000, Warn), (2600000, Fire (Callback ''handleTimeout''))]"
proof -
  have i: "in_time 0 [(100000, Mousemove), (900000, Keydown), (1700000, Click)]"
    by (simp add: durations)
  from module_timers_coalesce [OF i, of "Callback ''handleTimeout''"] i
  show ?thesis by (simp add: durations)
qed

lemma mounted_page_eq:
  "mounted_page =
     \<lparr>clock = 0, next_timer = 4,
      timers = [(1, 840000, ShowDialog 60), (2, 840000, Warn),
                (3, 900000, Fire (Callback ''handleTimeout''))],
      inactivityTimer = Some 3, warningTimer = Some 2, next_closure = 3,
      listeners = [(Mousemove, ResetClosure 0 (Callback ''handleTimeout'')),
                   (Keydown, ResetClosure (Suc 0) (Callback ''handleTimeout'')),
                   (Click, ResetClosure 2 (Callback ''handleTimeout''))],
      trace = []\<rparr>"
  by (simp add: mounted_page_def SessionTimeoutWarning_effect_def
      initializeInactivityTracking_def new_closure_def
      addEventListener_def fresh_page_def Let_def startInactivityTimer_def
      clearInactivityTimer_def clear_if_set_def clearTimeout_def setTimeout_def durations)

lemma active_page_eq:
  "active_page =
     \<lparr>clock = 800000, next_timer = 6,
      timers = [(1, 840000, ShowDialog 60), (4, 1640000, Warn),
                (5, 1700000, Fire (Callback ''handleTimeout''))],
      inactivityTimer = Some 5, warningTimer = Some 4, next_closure = 3,
      listeners = [(Mousemove, ResetClosure 0 (Callback ''handleTimeout'')),
                   (Keydown, ResetClosure (Suc 0) (Callback ''handleTimeout'')),
                   (Click, ResetClosure 2 (Callback ''handleTimeout''))],
      trace = []\<rparr>"
  by (simp add: active_page_def mounted_page_eq dispatch_def advance.simps next_due_def Let_def
      resetInactivityTimer_def startInactivityTimer_def
      clearInactivityTimer_def clear_if_set_def clearTimeout_def setTimeout_def durations)

text \<open>
  C7 says that activity arriving before the warning deadline keeps the warning from
  firing, and that the warning and logout deadlines run from the most recent activity. That
  holds of the two timers of sessionTimeout.js, but not of the warning the user sees: the
  dialog of SessionTimeoutWarning.js sets its own timer when it mounts, and no activity
  resets it. In the run below the user is authenticated at 0 s and moves the mouse at
  800 s, before the warning deadline of 840 s. The mouse movement moves the two timers of
  sessionTimeout.js to 1640 s and 1700 s and leaves the dialog's timer at 840 s: the dialog
  opens at 840 s, and \<^verbatim>\<open>handleLogout\<close> runs at 900 s, both measured from the mount.
\<close>

theorem dialog_warning_fires_despite_activity:
  "in_time 0 [(800000, Mousemove)]
   \<and> timers active_page
       = [(1, 840000, ShowDialog 60), (4, 1640000, Warn),
          (5, 1700000, Fire (Callback ''handleTimeout''))]
   \<and> trace (advance 839999 active_page) = []
   \<and> trace (advance 840000 active_page) = [(840000, DialogOpened)]
   \<and> trace (advance 900000 active_page) = [(840000, DialogOpened), (900000, DialogLoggedOut)]"
  by (simp add: active_page_eq advance.simps next_due_def setTimeout_def durations)

lemma removeEventListener_absent:
  "(ev, l) \<notin> set (listeners p) \<Longrightarrow> removeEventListener ev l p = p"
proof -
  assume "(ev, l) \<notin> set (listeners p)"
  then have "filter (\<lambda>x. x \<noteq> (ev, l)) (listeners p) = listeners p"
    by (auto simp: filter_id_conv)
  then show ?thesis
    by (simp add: removeEventListener_def)
qed

lemma removeInactivityTracking_closures:
  assumes "list_all (\<lambda>(ev, l). \<exists>k h. l = ResetClosure k h) (listeners p)"
  shows "removeInactivityTracking p = clearInactivityTimer p"
proof -
  from assms have "\<And>ev. (ev, ResetInactivityTimerRef) \<notin> set (listeners p)"
    by (auto simp: list_all_iff)
  then show ?thesis
    by (simp add: removeInactivityTracking_def removeEventListener_absent)
qed

lemma removeInactivityTracking_leaves:
  assumes "tracked p" and "list_all (\<lambda>(ev, l). \<exists>k h. l = ResetClosure k h) (listeners p)"
  shows "timers (removeInactivityTracking p) = []"
    and "listeners (removeInactivityTracking p) = listeners p"
  by (simp_all add: removeInactivityTracking_closures [OF assms(2)]
      clearInactivityTimer_tracked [OF assms(1)])

lemma started_page_eq:
  "started_page =
     \<lparr>clock = 0, next_timer = 3,
      timers = [(1, 840000, Warn), (2, 900000, Fire (Callback ''handleTimeout''))],
      inactivityTimer = Some 2, warningTimer = Some 1, next_closure = 3,
      listeners = [(Mousemove, ResetClosure 0 (Callback ''handleTimeout'')),
                   (Keydown, ResetClosure (Suc 0) (Callback ''handleTimeout'')),
                   (Click, ResetClosure 2 (Callback ''handleTimeout''))],
      trace = []\<rparr>"
  by (simp add: started_page_def initializeInactivityTracking_def new_closure_def
      addEventListener_def fresh_page_def Let_def startInactivityTimer_def
      clearInactivityTimer_def clear_if_set_def setTimeout_def durations)

lemma stopped_page_eq:
  "stopped_page =
     \<lparr>clock = 1000, next_timer = 3, timers = [],
      inactivityTimer = Some 2, warningTimer = Some 1, next_closure = 3,
      listeners = [(Mousemove, ResetClosure 0 (Callback ''handleTimeout'')),
                   (Keydown, ResetClosure (Suc 0) (Callback ''handleTimeout'')),
                   (Click, ResetClosure 2 (Callback ''handleTimeout''))],
      trace = []\<rparr>"
  by (simp add: stopped_page_def started_page_eq advance.simps next_due_def Let_def
      removeInactivityTracking_def removeEventListener_def
      clearInactivityTimer_def clear_if_set_def clearTimeout_def)

lemma moved_page_eq:
  "moved_page =
     \<lparr>clock = 2000, next_timer = 5,
      timers = [(3, 842000, Warn), (4, 902000, Fire (Callback ''handleTimeout''))],
      inactivityTimer = Some 4, warningTimer = Some 3, next_closure = 3,
      listeners = [(Mousemove, ResetClosure 0 (Callback ''handleTimeout'')),
                   (Keydown, ResetClosure (Suc 0) (Callback ''handleTimeout'')),
                   (Click, ResetClosure 2 (Callback ''handleTimeout''))],
      trace = []\<rparr>"
  by (simp add: moved_page_def stopped_page_eq dispatch_def advance.simps next_due_def Let_def
      resetInactivityTimer_def startInactivityTimer_def
      clearInactivityTimer_def clear_if_set_def clearTimeout_def setTimeout_def durations)

text \<open>
  C8: right after \<^verbatim>\<open>removeInactivityTracking\<close> no timer is pending
  (\<open>removeInactivityTracking_leaves\<close>). But \<^verbatim>\<open>initializeInactivityTracking\<close> registered
  anonymous closures, and \<^verbatim>\<open>removeInactivityTracking\<close> passes the function
  \<^verbatim>\<open>resetInactivityTimer\<close> to \<^verbatim>\<open>removeEventListener\<close>, which is none of them: every
  listener stays registered. In the run below the tracking is started at 0 s and stopped
  at 1 s; the mouse moves at 2 s; the surviving listener sets both timers again, and the
  warning and \<^verbatim>\<open>onTimeout\<close> run at 842 s and 902 s although nothing restarted the
  tracking.
\<close>

theorem timers_restart_after_stop:
  "timers stopped_page = []
   \<and> listeners stopped_page = listeners started_page
   \<and> timers moved_page = [(3, 842000, Warn), (4, 902000, Fire (Callback ''handleTimeout''))]
   \<and> trace (advance 902000 moved_page) = [(842000, Warned), (902000, Called ''handleTimeout'')]"
  by (simp add: stopped_page_eq started_page_eq moved_page_eq advance.simps next_due_def)

end
